theory Spec2Isabelle
  imports Complex_Main
begin

section \<open>Python values and library calls\<close>

text \<open>
  The two driver scripts are modelled rank by rank. Python's unbounded integers are
  \<open>int\<close> (or \<open>nat\<close> where the value is a count, a rank or an iteration
  index), Python's floats are idealised as \<open>real\<close>, and every exception the
  scripts can raise in the modelled code is a value of \<open>py_error\<close>. Calls that
  write files or talk to the framework are recorded as events of a trace.
\<close>

datatype py_error =
    ZeroDivisionError
  | ValueError
  | UnboundLocalError string
  | CheckpointError

datatype event =
    Monitor_add string nat "real option"
  | Save_parameters string
  | Save_checkpoint string nat
  | Set_learning_rate real
  | Validation nat
  | Train_step nat

text \<open>
  \<open>Monitor_add name index value\<close> is a call \<open>monitor.add(index, value)\<close> of the
  monitor series called \<open>name\<close>; the value is \<open>None\<close> for an elapsed-time
  monitor and for the training loss and error, which the training graph computes.
  \<open>Validation i\<close> marks that the validation block of iteration \<open>i\<close> ran, and
  \<open>Train_step i\<close> stands for the minibatch fetch, forward pass, backward pass,
  gradient all-reduce and \<open>solver.update()\<close> of iteration \<open>i\<close>.
\<close>

fun is_write :: "event \<Rightarrow> bool" where
  "is_write (Monitor_add name idx v) = True"
| "is_write (Save_parameters path) = True"
| "is_write (Save_checkpoint path i) = True"
| "is_write (Set_learning_rate r) = False"
| "is_write (Validation i) = False"
| "is_write (Train_step i) = False"

text \<open>\<open>int(x)\<close> on a float truncates towards zero.\<close>

definition py_int :: "real \<Rightarrow> int" where
  "py_int x = (if 0 \<le> x then \<lfloor>x\<rfloor> else \<lceil>x\<rceil>)"

text \<open>\<open>range(a, b, step)\<close> for a positive step, and the slice \<open>xs[a:b]\<close>.\<close>

definition py_range :: "nat \<Rightarrow> nat \<Rightarrow> nat \<Rightarrow> nat list" where
  "py_range a b step = map (\<lambda>q. a + q * step) [0..<(b - a + step - 1) div step]"

definition py_slice :: "'a list \<Rightarrow> nat \<Rightarrow> nat \<Rightarrow> 'a list" where
  "py_slice xs a b = take (b - a) (drop a xs)"

text \<open>A \<open>for\<close> loop whose body may raise: the first exception ends the loop.\<close>

fun for_loop :: "(nat \<Rightarrow> 'st \<Rightarrow> py_error + 'st) \<Rightarrow> nat list \<Rightarrow> 'st \<Rightarrow> py_error + 'st" where
  "for_loop body [] s = Inr s"
| "for_loop body (i # rest) s =
     (case body i s of Inl err \<Rightarrow> Inl err | Inr s' \<Rightarrow> for_loop body rest s')"

text \<open>A list comprehension whose element expression may raise.\<close>

fun map_result :: "('a \<Rightarrow> py_error + 'b) \<Rightarrow> 'a list \<Rightarrow> py_error + 'b list" where
  "map_result f [] = Inr []"
| "map_result f (x # xs) =
     (case f x of
        Inl err \<Rightarrow> Inl err
      | Inr y \<Rightarrow> (case map_result f xs of Inl err \<Rightarrow> Inl err | Inr ys \<Rightarrow> Inr (y # ys)))"

text \<open>\<open>max\<close> of a non-empty list.\<close>

definition py_max :: "int list \<Rightarrow> int" where
  "py_max xs = fold max (tl xs) (hd xs)"

subsection \<open>Formatting integers and paths\<close>

definition digit_char :: "nat \<Rightarrow> char" where
  "digit_char d = char_of (48 + d)"

function decimal :: "nat \<Rightarrow> string" where
  "decimal n = (if n < 10 then [digit_char n] else decimal (n div 10) @ [digit_char (n mod 10)])"
  by pat_completeness auto
termination
  by (relation "measure id") auto

text \<open>\<open>str(i)\<close>, as the f-string \<open>{index}\<close> renders an integer.\<close>

definition py_str :: "int \<Rightarrow> string" where
  "py_str i = (if i < 0 then CHR ''-'' # decimal (nat (- i)) else decimal (nat i))"

text \<open>\<open>'%06d' % i\<close> and \<open>'{:06}'.format(i)\<close>: zero padding to width six, sign first.\<close>

definition zero_pad :: "nat \<Rightarrow> string \<Rightarrow> string" where
  "zero_pad w s = replicate (w - length s) CHR ''0'' @ s"

definition fmt_06d :: "int \<Rightarrow> string" where
  "fmt_06d i =
     (if i < 0 then CHR ''-'' # zero_pad 5 (decimal (nat (- i))) else zero_pad 6 (decimal (nat i)))"

text \<open>\<open>os.path.join(a, b)\<close> for a relative \<open>b\<close>.\<close>

definition path_join :: "string \<Rightarrow> string \<Rightarrow> string" where
  "path_join a b = (if a = [] \<or> last a = CHR ''/'' then a @ b else a @ ''/'' @ b)"

definition params_file :: "string \<Rightarrow> int \<Rightarrow> string" where
  "params_file dir i = path_join dir (''params_'' @ fmt_06d i @ ''.h5'')"

definition checkpoint_file :: "string \<Rightarrow> int \<Rightarrow> string" where
  "checkpoint_file dir index = dir @ ''/checkpoint_'' @ py_str index @ ''.json''"

subsection \<open>The checkpoint index of a file name\<close>

text \<open>
  \<open>int(re.sub(r'.*checkpoint_(\d+).json', '\\1', f))\<close> on a file name without a line
  break. The greedy \<open>.*\<close> makes the match start at the last \<open>checkpoint_\<close> that
  the rest of the pattern can follow; \<open>\d+\<close> takes the whole run of digits, or all
  but its last digit when that digit has to stand for the \<open>.\<close> of the pattern. The match
  is replaced by the digits of the group, and \<open>int\<close> raises \<open>ValueError\<close> when
  anything but digits is left.
\<close>

definition is_digit :: "char \<Rightarrow> bool" where
  "is_digit c = (c \<in> set ''0123456789'')"

definition match_tail :: "string \<Rightarrow> (string \<times> string) option" where
  "match_tail s =
     (let ds = takeWhile is_digit s; r = dropWhile is_digit s in
      if ds = [] then None
      else if r \<noteq> [] \<and> take 4 (tl r) = ''json'' then Some (ds, drop 5 r)
      else if 2 \<le> length ds \<and> take 4 r = ''json'' then Some (butlast ds, drop 4 r)
      else None)"

fun last_match :: "string \<Rightarrow> (string \<times> string) option" where
  "last_match [] = None"
| "last_match (c # cs) =
     (case last_match cs of
        Some m \<Rightarrow> Some m
      | None \<Rightarrow>
          if take 11 (c # cs) = ''checkpoint_'' then match_tail (drop 11 (c # cs)) else None)"

definition re_sub :: "string \<Rightarrow> string" where
  "re_sub f = (case last_match f of None \<Rightarrow> f | Some (grp, rest) \<Rightarrow> grp @ rest)"

definition digit_value :: "char \<Rightarrow> nat" where
  "digit_value c = of_char c - 48"

definition int_of_str :: "string \<Rightarrow> py_error + int" where
  "int_of_str s =
     (if s \<noteq> [] \<and> list_all is_digit s
      then Inr (int (fold (\<lambda>c n. 10 * n + digit_value c) s 0))
      else Inl ValueError)"

definition checkpoint_index :: "string \<Rightarrow> py_error + int" where
  "checkpoint_index f = int_of_str (re_sub f)"

section \<open>The distributed training loop\<close>

text \<open>
  \<open>multi_device_multi_process_classification.py\<close>, function \<open>train\<close>, as one
  rank runs it. The fields of \<open>args\<close> are the command-line arguments the loop reads.
\<close>

record args =
  net :: string
  batch_size :: nat
  learning_rate :: real
  warmup_epoch :: int
  max_iter :: int
  model_save_interval :: int
  model_save_path :: string
  use_latest_checkpoint :: bool

text \<open>
  What the rank gets from outside the script: the communicator's size and rank, the result
  of \<open>glob.glob\<close>, the index \<open>int(re.sub(...))\<close> of a file name, the module
  \<open>checkpoint\<close> (it restores the solver, here its learning rate, and returns the
  iteration to start from), the shuffled validation samples \<open>vsource.images[idx]\<close>
  with their labels on each rank at each iteration, and the error the validation graph
  computes for a batch.
\<close>

record 's env =
  n_devices :: nat
  mpi_rank :: nat
  files :: "string list"
  index_of :: "string \<Rightarrow> py_error + int"
  load_checkpoint :: "string \<Rightarrow> real \<Rightarrow> py_error + (nat \<times> real)"
  val_data :: "nat \<Rightarrow> nat \<Rightarrow> 's list"
  error_valid :: "nat \<Rightarrow> nat \<Rightarrow> 's list \<Rightarrow> real"

record train_state =
  st_lr :: real
  st_model_save_interval :: int
  st_ve :: "real option"
  st_trace :: "event list"

definition n_train_samples :: nat where
  "n_train_samples = 50000"

definition n_valid_samples :: nat where
  "n_valid_samples = 10000"

subsection \<open>Validation\<close>

text \<open>
  The loop over \<open>j\<close> of lines 184 to 195: \<open>ev\<close> is the forward pass of the
  validation graph on a batch, the pair is \<open>(ve_local, k)\<close>.
\<close>

fun valid_loop :: "('s list \<Rightarrow> real) \<Rightarrow> 's list \<Rightarrow> nat \<Rightarrow> nat list \<Rightarrow> real \<times> nat \<Rightarrow> real \<times> nat" where
  "valid_loop ev vals bs_valid [] (ve_local, k) = (ve_local, k)"
| "valid_loop ev vals bs_valid (j # js) (ve_local, k) =
     (let image = py_slice vals j (j + bs_valid) in
      if length image \<noteq> bs_valid then valid_loop ev vals bs_valid js (ve_local, k)
      else valid_loop ev vals bs_valid js (ve_local + ev image, k + 1))"

text \<open>
  Lines 179 to 196 on rank \<open>rank\<close> of \<open>nd\<close>: the local mean error.
  \<open>ve_local /= k\<close> raises when no batch was counted (\<open>ve_local\<close> is then still
  the float \<open>0.\<close>), and \<open>range\<close> raises on a zero step.
\<close>

definition validation_local :: "nat \<Rightarrow> nat \<Rightarrow> nat \<Rightarrow> ('s list \<Rightarrow> real) \<Rightarrow> 's list \<Rightarrow> py_error + real" where
  "validation_local nd rank bs_valid ev vals =
     (if nd = 0 then Inl ZeroDivisionError
      else if bs_valid = 0 then Inl ValueError
      else
        (case valid_loop ev vals bs_valid
            (py_range (nat (py_int (real n_valid_samples / real nd * real rank)))
                      (nat (py_int (real n_valid_samples / real nd * real (rank + 1))))
                      bs_valid) (0, 0) of
           (ve_local, k) \<Rightarrow> if k = 0 then Inl ZeroDivisionError else Inr (ve_local / real k)))"

text \<open>
  The full-size batches of a rank's partition, in the words of the specification: of the
  slices \<open>val_images[j:j + bs_valid]\<close> that the rank takes, those of length
  \<open>bs_valid\<close>. The validation loop is compared with it below.
\<close>

definition partition_slices :: "nat \<Rightarrow> nat \<Rightarrow> nat \<Rightarrow> 's list \<Rightarrow> 's list list" where
  "partition_slices nd rank bs_valid vals =
     map (\<lambda>j. py_slice vals j (j + bs_valid))
       (py_range (nat (py_int (real n_valid_samples / real nd * real rank)))
                 (nat (py_int (real n_valid_samples / real nd * real (rank + 1))))
                 bs_valid)"

definition full_batches :: "nat \<Rightarrow> nat \<Rightarrow> nat \<Rightarrow> 's list \<Rightarrow> 's list list" where
  "full_batches nd rank bs_valid vals =
     filter (\<lambda>batch. length batch = bs_valid) (partition_slices nd rank bs_valid vals)"

text \<open>
  Modelled from the spec: \<open>comm.all_reduce\<close> is the framework's collective
  ("combining a value from every process and distributing the combined result back to
  all"; with \<open>division=True\<close> it "averages this scalar across ranks"). The list holds
  the value each rank contributes, by rank, and the result the value each rank holds
  afterwards.
\<close>

definition all_reduce :: "real list \<Rightarrow> bool \<Rightarrow> real list" where
  "all_reduce xs division =
     map (\<lambda>x. if division then sum_list xs / real (length xs) else sum_list xs) xs"

text \<open>
  The local mean errors of all ranks at iteration \<open>i\<close>. A rank that raises never
  reaches the collective, and then no rank gets a value.
\<close>

definition local_errors :: "args \<Rightarrow> 's env \<Rightarrow> nat \<Rightarrow> py_error + real list" where
  "local_errors a e i =
     map_result
       (\<lambda>r. validation_local (n_devices e) r (batch_size a) (error_valid e r i) (val_data e r i))
       [0..<n_devices e]"

definition validation :: "args \<Rightarrow> 's env \<Rightarrow> nat \<Rightarrow> py_error + real" where
  "validation a e i =
     (case local_errors a e i of
        Inl err \<Rightarrow> Inl err
      | Inr ve_locals \<Rightarrow> Inr (all_reduce ve_locals True ! mpi_rank e))"

text \<open>Lines 178 to 209: the validation block with the saving of the model on rank 0.\<close>

definition validation_block :: "args \<Rightarrow> 's env \<Rightarrow> nat \<Rightarrow> train_state \<Rightarrow> py_error + train_state" where
  "validation_block a e i s =
     (case validation a e i of
        Inl err \<Rightarrow> Inl err
      | Inr v \<Rightarrow>
          (let s1 = s\<lparr>st_ve := Some v, st_trace := st_trace s @ [Validation i]\<rparr> in
           if mpi_rank e = 0 then
             (let s2 = s1\<lparr>st_trace := st_trace s1 @
                          [Monitor_add ''Validation error'' (i * n_devices e) (Some v),
                           Monitor_add ''Validation time'' (i * n_devices e) None]\<rparr> in
              if st_model_save_interval s2 \<le> 0 then
                Inr (s2\<lparr>st_trace := st_trace s2 @
                            [Save_parameters (params_file (model_save_path a) (int i)),
                             Save_checkpoint (model_save_path a) i],
                         st_model_save_interval := st_model_save_interval s2 +
                            py_int (real_of_int (model_save_interval a) / real (n_devices e))\<rparr>)
              else Inr s2)
           else Inr s1))"

subsection \<open>One iteration and the whole run\<close>

text \<open>
  Lines 177 to 234, the body of the training loop at iteration \<open>i\<close>, with
  \<open>warmup_iter\<close> and \<open>warmup_slope\<close> as computed before the loop.
\<close>

definition train_step :: "args \<Rightarrow> 's env \<Rightarrow> int \<Rightarrow> real \<Rightarrow> nat \<Rightarrow> train_state \<Rightarrow> py_error + train_state" where
  "train_step a e warmup_iter warmup_slope i s =
     (let val_interval =
            py_int (real n_train_samples / real (batch_size a) / real (n_devices e)) in
      if val_interval = 0 then Inl ZeroDivisionError
      else
        (case (if int i mod val_interval = 0 then validation_block a e i s else Inr s) of
           Inl err \<Rightarrow> Inl err
         | Inr s1 \<Rightarrow>
             (let s2 = s1\<lparr>st_model_save_interval := st_model_save_interval s1 - 1,
                          st_trace := st_trace s1 @ [Train_step i]\<rparr>;
                  s3 = (if int i \<le> warmup_iter
                        then (let lr = learning_rate a + warmup_slope * real i in
                              s2\<lparr>st_lr := lr, st_trace := st_trace s2 @ [Set_learning_rate lr]\<rparr>)
                        else s2)
              in Inr (if mpi_rank e = 0
                      then s3\<lparr>st_trace := st_trace s3 @
                                 [Monitor_add ''Training loss'' (i * n_devices e) None,
                                  Monitor_add ''Training error'' (i * n_devices e) None,
                                  Monitor_add ''Training time'' (i * n_devices e) None]\<rparr>
                      else s3))))"

text \<open>Lines 129 to 138: the iteration to start from, and the solver's learning rate.\<close>

definition resume :: "args \<Rightarrow> 's env \<Rightarrow> real \<Rightarrow> py_error + (nat \<times> real)" where
  "resume a e lr =
     (if use_latest_checkpoint a then
        (if length (files e) \<noteq> 0 then
           (case map_result (index_of e) (files e) of
              Inl err \<Rightarrow> Inl err
            | Inr indices \<Rightarrow>
                load_checkpoint e (checkpoint_file (model_save_path a) (py_max indices)) lr)
         else Inr (0, lr))
      else Inr (0, lr))"

definition warmup_iter_of :: "args \<Rightarrow> 's env \<Rightarrow> int" where
  "warmup_iter_of a e =
     py_int (1 * real n_train_samples / real (batch_size a) / real (n_devices e)) * warmup_epoch a"

definition warmup_slope_of :: "args \<Rightarrow> 's env \<Rightarrow> real" where
  "warmup_slope_of a e =
     learning_rate a * (real (n_devices e) - 1) / real_of_int (warmup_iter_of a e)"

definition n_steps :: "args \<Rightarrow> 's env \<Rightarrow> nat" where
  "n_steps a e = nat (py_int (real_of_int (max_iter a) / real (n_devices e)))"

text \<open>
  Lines 71 to 175, everything before the loop: the iteration to start from and the state
  the loop starts in. A network name the script does not know leaves \<open>prediction\<close>
  unbound; a zero batch size, or a warmup of zero iterations, raises
  \<open>ZeroDivisionError\<close> in lines 124 to 126.
\<close>

definition train_init :: "args \<Rightarrow> 's env \<Rightarrow> py_error + (nat \<times> train_state)" where
  "train_init a e =
     (if net a \<noteq> ''cifar10_resnet23'' \<and> net a \<noteq> ''cifar100_resnet23''
        then Inl (UnboundLocalError ''prediction'')
      else if batch_size a = 0 \<or> n_devices e = 0 then Inl ZeroDivisionError
      else if warmup_iter_of a e = 0 then Inl ZeroDivisionError
      else
        (case resume a e (learning_rate a) of
           Inl err \<Rightarrow> Inl err
         | Inr (start_point, lr0) \<Rightarrow>
             Inr (start_point,
                  \<lparr>st_lr = lr0, st_model_save_interval = 0, st_ve = None,
                   st_trace = [Set_learning_rate (learning_rate a)]\<rparr>)))"

text \<open>
  The loop of line 176 run for the iterations from \<open>start_point\<close> up to, and without,
  \<open>stop\<close>; \<open>train\<close> runs it up to \<open>int(args.max_iter / n_devices)\<close>.
\<close>

definition train_loop :: "args \<Rightarrow> 's env \<Rightarrow> nat \<Rightarrow> nat \<Rightarrow> train_state \<Rightarrow> py_error + train_state" where
  "train_loop a e start_point stop s =
     for_loop (train_step a e (warmup_iter_of a e) (warmup_slope_of a e)) [start_point..<stop] s"

text \<open>Lines 238 to 241: the last snapshot, on rank 0.\<close>

definition train_finish :: "args \<Rightarrow> 's env \<Rightarrow> train_state \<Rightarrow> train_state" where
  "train_finish a e s =
     (if mpi_rank e = 0
      then s\<lparr>st_trace := st_trace s @
               [Save_parameters (params_file (model_save_path a)
                  (py_int (real_of_int (max_iter a) / real (n_devices e))))]\<rparr>
      else s)"

definition train :: "args \<Rightarrow> 's env \<Rightarrow> py_error + train_state" where
  "train a e =
     (case train_init a e of
        Inl err \<Rightarrow> Inl err
      | Inr (start_point, s0) \<Rightarrow>
          (case train_loop a e start_point (n_steps a e) s0 of
             Inl err \<Rightarrow> Inl err
           | Inr s \<Rightarrow> Inr (train_finish a e s)))"

text \<open>Reading a trace: the iterations that trained, and those that validated.\<close>

fun train_steps :: "event list \<Rightarrow> nat list" where
  "train_steps [] = []"
| "train_steps (Train_step i # evs) = i # train_steps evs"
| "train_steps (ev # evs) = train_steps evs"

fun validations :: "event list \<Rightarrow> nat list" where
  "validations [] = []"
| "validations (Validation i # evs) = i # validations evs"
| "validations (ev # evs) = validations evs"

fun learning_rates :: "event list \<Rightarrow> real list" where
  "learning_rates [] = []"
| "learning_rates (Set_learning_rate r # evs) = r # learning_rates evs"
| "learning_rates (ev # evs) = learning_rates evs"

fun saved_files :: "event list \<Rightarrow> string list" where
  "saved_files [] = []"
| "saved_files (Save_parameters path # evs) = path # saved_files evs"
| "saved_files (ev # evs) = saved_files evs"

section \<open>The distillation loop\<close>

text \<open>
  \<open>distillation.py\<close>, function \<open>distil\<close>. The arguments the loop reads
  (\<open>args.net\<close>, \<open>args.batch_size\<close>, \<open>args.max_iter\<close>,
  \<open>args.val_interval\<close>, \<open>args.model_save_path\<close>) carry the prefix \<open>d_\<close>
  here, the script having an argument parser of its own.
\<close>

record distil_args =
  d_net :: string
  d_batch_size :: nat
  d_max_iter :: int
  d_val_interval :: int
  d_model_save_path :: string

text \<open>
  The local variables \<open>ve\<close> (unbound until the first validation pass) and
  \<open>best_ve\<close>, and the trace of the calls made so far.
\<close>

record distil_state =
  ve :: "real option"
  best_ve :: real
  d_trace :: "event list"

definition n_valid :: nat where
  "n_valid = 10000"

text \<open>
  Lines 104 to 109 (and 127 to 132): one validation pass, \<open>cerr j\<close> being the
  \<open>categorical_error\<close> of the \<open>j\<close>-th validation batch of the pass.
\<close>

definition distil_validation :: "nat \<Rightarrow> (nat \<Rightarrow> real) \<Rightarrow> py_error + real" where
  "distil_validation bs cerr =
     (if bs = 0 then Inl ZeroDivisionError
      else
        (let n_batches = nat (py_int (real n_valid / real bs));
             ve_sum = fold (\<lambda>j acc. acc + cerr j) [0..<n_batches] 0
         in if n_batches = 0 then Inl ZeroDivisionError else Inr (ve_sum / real n_batches)))"

text \<open>Lines 102 to 110: the validation block of iteration \<open>i\<close>.\<close>

definition distil_validate :: "distil_args \<Rightarrow> (nat \<Rightarrow> nat \<Rightarrow> real) \<Rightarrow> nat \<Rightarrow> distil_state \<Rightarrow> py_error + distil_state" where
  "distil_validate a cerr i s =
     (case distil_validation (d_batch_size a) (cerr i) of
        Inl err \<Rightarrow> Inl err
      | Inr v \<Rightarrow> Inr (s\<lparr>ve := Some v, d_trace := d_trace s @ [Monitor_add ''Test error'' i (Some v)]\<rparr>))"

text \<open>Lines 111 to 114: the best-model check, on the value \<open>v\<close> of \<open>ve\<close>.\<close>

definition save_best :: "distil_args \<Rightarrow> nat \<Rightarrow> real \<Rightarrow> distil_state \<Rightarrow> distil_state" where
  "save_best a i v s =
     (if v < best_ve s
      then s\<lparr>d_trace := d_trace s @ [Save_parameters (params_file (d_model_save_path a) (int i))],
             best_ve := v\<rparr>
      else s)"

text \<open>Lines 115 to 125: the training part of an iteration.\<close>

definition distil_update :: "nat \<Rightarrow> distil_state \<Rightarrow> distil_state" where
  "distil_update i s =
     s\<lparr>d_trace := d_trace s @
          [Train_step i,
           Monitor_add ''Training loss'' i None,
           Monitor_add ''Training error'' i None,
           Monitor_add ''Training time'' i None]\<rparr>"

text \<open>
  Lines 102 to 125, the loop body at iteration \<open>i\<close>. The check of line 111 reads
  \<open>ve\<close> on every iteration, and raises when no validation pass has assigned it.
\<close>

definition distil_step :: "distil_args \<Rightarrow> (nat \<Rightarrow> nat \<Rightarrow> real) \<Rightarrow> nat \<Rightarrow> distil_state \<Rightarrow> py_error + distil_state" where
  "distil_step a cerr i s =
     (if d_val_interval a = 0 then Inl ZeroDivisionError
      else
        (case (if int i mod d_val_interval a = 0 then distil_validate a cerr i s else Inr s) of
           Inl err \<Rightarrow> Inl err
         | Inr s1 \<Rightarrow>
             (case ve s1 of
                None \<Rightarrow> Inl (UnboundLocalError ''ve'')
              | Some v \<Rightarrow> Inr (distil_update i (save_best a i v s1)))))"

definition distil_init :: distil_state where
  "distil_init = \<lparr>ve = None, best_ve = 1, d_trace = []\<rparr>"

definition distil_loop :: "distil_args \<Rightarrow> (nat \<Rightarrow> nat \<Rightarrow> real) \<Rightarrow> py_error + distil_state" where
  "distil_loop a cerr = for_loop (distil_step a cerr) [0..<nat (d_max_iter a)] distil_init"

text \<open>
  Lines 127 to 137: the last validation pass and the last save. \<open>i\<close> is the last
  value of the loop variable, unbound when the loop did not run.
\<close>

definition distil_finish :: "distil_args \<Rightarrow> (nat \<Rightarrow> nat \<Rightarrow> real) \<Rightarrow> distil_state \<Rightarrow> py_error + distil_state" where
  "distil_finish a cerr s =
     (case distil_validation (d_batch_size a) (cerr (nat (d_max_iter a))) of
        Inl err \<Rightarrow> Inl err
      | Inr v \<Rightarrow>
          if d_max_iter a \<le> 0 then Inl (UnboundLocalError ''i'')
          else Inr (s\<lparr>ve := Some v,
                      d_trace := d_trace s @
                        [Monitor_add ''Test error'' (nat (d_max_iter a) - 1) (Some v),
                         Save_parameters (params_file (d_model_save_path a) (d_max_iter a))]\<rparr>))"

definition distil :: "distil_args \<Rightarrow> (nat \<Rightarrow> nat \<Rightarrow> real) \<Rightarrow> py_error + distil_state" where
  "distil a cerr =
     (if d_net a \<noteq> ''cifar10_resnet23_prediction''
        then Inl (UnboundLocalError ''c'')
      else
        (case distil_loop a cerr of
           Inl err \<Rightarrow> Inl err
         | Inr s \<Rightarrow> distil_finish a cerr s))"

subsection \<open>The loop with the check inside the validation block\<close>

text \<open>
  The variant the claim on the timing of the check compares with: the best-model check
  runs only right after a validation pass, on the error that pass computed.
\<close>

definition distil_step_after_validation :: "distil_args \<Rightarrow> (nat \<Rightarrow> nat \<Rightarrow> real) \<Rightarrow> nat \<Rightarrow> distil_state \<Rightarrow> py_error + distil_state" where
  "distil_step_after_validation a cerr i s =
     (if d_val_interval a = 0 then Inl ZeroDivisionError
      else if int i mod d_val_interval a = 0 then
        (case distil_validate a cerr i s of
           Inl err \<Rightarrow> Inl err
         | Inr s1 \<Rightarrow>
             (case ve s1 of
                None \<Rightarrow> Inl (UnboundLocalError ''ve'')
              | Some v \<Rightarrow> Inr (distil_update i (save_best a i v s1))))
      else Inr (distil_update i s))"

definition distil_loop_after_validation :: "distil_args \<Rightarrow> (nat \<Rightarrow> nat \<Rightarrow> real) \<Rightarrow> py_error + distil_state" where
  "distil_loop_after_validation a cerr =
     for_loop (distil_step_after_validation a cerr) [0..<nat (d_max_iter a)] distil_init"

section \<open>Teacher and student parameters\<close>

text \<open>
  Lines 53 to 86 and 116 to 121 of \<open>distillation.py\<close>. The script names the two
  scopes and hands the solver the parameters of the student scope; the registry of named
  parameters, the construction of a network inside a scope (\<open>models.py\<close>) and the
  solver are not part of the files at hand and are modelled from the specification. A
  parameter is named by its scope and its name inside the scope and holds a value and a
  gradient.
\<close>

type_synonym pname = "string \<times> string"

record 'v param =
  p_data :: 'v
  p_grad :: 'v

type_synonym 'v registry = "(pname \<times> 'v param) list"

definition teacher :: string where
  "teacher = ''teacher''"

definition student :: string where
  "student = ''student''"

definition in_scope :: "string \<Rightarrow> pname \<times> 'v param \<Rightarrow> bool" where
  "in_scope scope entry = (fst (fst entry) = scope)"

text \<open>
  Modelled from the spec: \<open>model_prediction(image, net=scope, ...)\<close> of
  \<open>models.py\<close>, which is not among the source files. "Teacher/student use disjoint
  name scopes": the network registers each of its parameters under that scope,
  and keeps a parameter that is there already (the loaded ones).
\<close>

definition create_parameters :: "string \<Rightarrow> (string \<times> 'v) list \<Rightarrow> ('v::zero) registry \<Rightarrow> 'v registry" where
  "create_parameters scope layers reg =
     fold (\<lambda>(name, init) r.
             if (scope, name) \<in> set (map fst r) then r
             else r @ [((scope, name), \<lparr>p_data = init, p_grad = 0\<rparr>)])
          layers reg"

text \<open>
  Modelled from the spec: \<open>nn.get_parameters()\<close> inside
  \<open>with nn.parameter_scope(scope)\<close>, the parameters registered under the scope.
\<close>

definition get_parameters :: "string \<Rightarrow> 'v registry \<Rightarrow> pname list" where
  "get_parameters scope reg = map fst (filter (in_scope scope) reg)"

text \<open>
  The registry, the parameters the solver was given, and for each prediction graph in the
  loss its scope and whether its output needs a gradient.
\<close>

record 'v distil_graph =
  registry :: "'v registry"
  solver_parameters :: "pname list"
  graphs :: "(string \<times> bool) list"

text \<open>
  Lines 53 to 86: the loaded parameters, the teacher graph with
  \<open>pred_label.need_grad = False\<close>, the student graph (built again for validation, in
  the same scope), and \<open>solver.set_parameters\<close> in the student scope.
\<close>

definition distil_setup :: "('v::zero) registry \<Rightarrow> (string \<times> 'v) list \<Rightarrow> (string \<times> 'v) list \<Rightarrow> 'v distil_graph" where
  "distil_setup loaded teacher_layers student_layers =
     (let reg1 = create_parameters teacher teacher_layers loaded;
          reg2 = create_parameters student student_layers reg1;
          reg3 = create_parameters student student_layers reg2
      in \<lparr>registry = reg3,
          solver_parameters = get_parameters student reg3,
          graphs = [(teacher, False), (student, True)]\<rparr>)"

text \<open>
  Modelled from the spec: the solver and the backward pass of the framework.
  \<open>solver.zero_grad()\<close> clears the gradients of the solver's parameters; the backward
  pass writes a gradient to the parameters of the graphs whose output needs one ("the
  teacher subgraph never receives gradient updates"); \<open>solver.weight_decay\<close> and
  \<open>solver.update()\<close> give each of the solver's parameters a new value. The forward
  pass is taken to write no parameter, the teacher being "frozen" in the words of the
  specification.
\<close>

definition zero_grad :: "('v::zero) distil_graph \<Rightarrow> 'v distil_graph" where
  "zero_grad g =
     g\<lparr>registry := map (\<lambda>(k, p). if k \<in> set (solver_parameters g) then (k, p\<lparr>p_grad := 0\<rparr>) else (k, p))
                       (registry g)\<rparr>"

definition backward :: "(pname \<Rightarrow> 'v) \<Rightarrow> 'v distil_graph \<Rightarrow> 'v distil_graph" where
  "backward gradient g =
     g\<lparr>registry := map (\<lambda>(k, p). if (fst k, True) \<in> set (graphs g) then (k, p\<lparr>p_grad := gradient k\<rparr>)
                                  else (k, p))
                       (registry g)\<rparr>"

definition solver_update :: "(pname \<Rightarrow> 'v param \<Rightarrow> 'v) \<Rightarrow> 'v distil_graph \<Rightarrow> 'v distil_graph" where
  "solver_update rule g =
     g\<lparr>registry := map (\<lambda>(k, p). if k \<in> set (solver_parameters g) then (k, p\<lparr>p_data := rule k p\<rparr>)
                                  else (k, p))
                       (registry g)\<rparr>"

text \<open>
  Lines 116 to 121, the training part of iteration \<open>i\<close>, and \<open>n\<close> iterations of
  it; \<open>gradient i\<close> and \<open>rule i\<close> are what the backward pass and the solver
  compute at iteration \<open>i\<close>.
\<close>

definition distil_train_step :: "(nat \<Rightarrow> pname \<Rightarrow> 'v) \<Rightarrow> (nat \<Rightarrow> pname \<Rightarrow> 'v param \<Rightarrow> 'v) \<Rightarrow> nat \<Rightarrow> ('v::zero) distil_graph \<Rightarrow> 'v distil_graph" where
  "distil_train_step gradient rule i g = solver_update (rule i) (backward (gradient i) (zero_grad g))"

definition distil_train :: "(nat \<Rightarrow> pname \<Rightarrow> 'v) \<Rightarrow> (nat \<Rightarrow> pname \<Rightarrow> 'v param \<Rightarrow> 'v) \<Rightarrow> nat \<Rightarrow> ('v::zero) distil_graph \<Rightarrow> 'v distil_graph" where
  "distil_train gradient rule n g = fold (distil_train_step gradient rule) [0..<n] g"

text \<open>
  What every step of an iteration keeps: the solver's parameters, the graphs, and each
  entry of the registry that is in the teacher scope.
\<close>

definition keeps_teacher :: "'v distil_graph \<Rightarrow> 'v distil_graph \<Rightarrow> bool" where
  "keeps_teacher g g' =
     (solver_parameters g' = solver_parameters g \<and> graphs g' = graphs g
      \<and> filter (in_scope teacher) (registry g') = filter (in_scope teacher) (registry g))"

section \<open>Reading a run, and concrete runs\<close>

text \<open>
  The learning rate the solver holds after iteration \<open>i\<close> of a run, that is after the
  loop has run up to and with iteration \<open>i\<close>.
\<close>

definition lr_after :: "args \<Rightarrow> 's env \<Rightarrow> nat \<Rightarrow> py_error + real" where
  "lr_after a e i =
     (case train_init a e of
        Inl err \<Rightarrow> Inl err
      | Inr (start_point, s0) \<Rightarrow> map_sum id st_lr (train_loop a e start_point (Suc i) s0))"

text \<open>
  A run on two ranks: twenty iterations in all, ten per rank, batches of 5000 samples, so
  that a rank validates every five iterations and the warmup lasts five iterations; every
  validation batch has the error one quarter.
\<close>

definition example_args :: args where
  "example_args =
     \<lparr>net = ''cifar10_resnet23'', batch_size = 5000, learning_rate = 1 / 1000, warmup_epoch = 1,
      max_iter = 20, model_save_interval = 10, model_save_path = ''out'',
      use_latest_checkpoint = False\<rparr>"

definition example_env :: "nat \<Rightarrow> unit env" where
  "example_env r =
     \<lparr>n_devices = 2, mpi_rank = r, files = [], index_of = checkpoint_index,
      load_checkpoint = (\<lambda>path lr. Inr (0, lr)),
      val_data = (\<lambda>rank i. replicate 10000 ()),
      error_valid = (\<lambda>rank i batch. 1 / 4)\<rparr>"

text \<open>
  The same run asked to resume, with three checkpoints in the directory; only the one with
  the index 120 can be loaded.
\<close>

definition resume_args :: args where
  "resume_args = example_args\<lparr>use_latest_checkpoint := True, max_iter := 300\<rparr>"

definition resume_env :: "unit env" where
  "resume_env =
     \<lparr>n_devices = 2, mpi_rank = 0,
      files = [''out/checkpoint_5.json'', ''out/checkpoint_120.json'', ''out/checkpoint_40.json''],
      index_of = checkpoint_index,
      load_checkpoint =
        (\<lambda>path lr. if path = ''out/checkpoint_120.json'' then Inr (120, lr) else Inl CheckpointError),
      val_data = (\<lambda>rank i. replicate 10000 ()),
      error_valid = (\<lambda>rank i batch. 1 / 4)\<rparr>"

text \<open>
  Two ranks whose validation batches have different errors: one quarter on rank 0, one half
  on rank 1.
\<close>

definition mean_env :: "unit env" where
  "mean_env = (example_env 1)\<lparr>error_valid := (\<lambda>rank i batch. if rank = 0 then 1 / 4 else 1 / 2)\<rparr>"

text \<open>
  Validation samples that carry the error they count for: 8000 samples with the error one
  half, then 2000 with the error three quarters; the error of a batch is the mean over its
  samples.
\<close>

definition example_vals :: "real list" where
  "example_vals = replicate 8000 (1 / 2) @ replicate 2000 (3 / 4)"

definition batch_error :: "real list \<Rightarrow> real" where
  "batch_error batch = sum_list batch / real (length batch)"

text \<open>
  A distillation run of four iterations that validates on every iteration, with one
  validation batch per pass; the validation errors are 0.5, 0.3, 0.4 and 0.2.
\<close>

definition scenario_args :: distil_args where
  "scenario_args =
     \<lparr>d_net = ''cifar10_resnet23_prediction'', d_batch_size = 10000, d_max_iter = 4,
      d_val_interval = 1, d_model_save_path = ''out''\<rparr>"

definition scenario_errors :: "nat \<Rightarrow> nat \<Rightarrow> real" where
  "scenario_errors i j = [1 / 2, 3 / 10, 2 / 5, 1 / 5, 1 / 5] ! i"

text \<open>The same errors with a validation pass on every second iteration only.\<close>

definition sparse_args :: distil_args where
  "sparse_args = scenario_args\<lparr>d_val_interval := 2\<rparr>"

text \<open>
  A teacher and a student with a layer of the same name, the teacher's weight loaded from
  the file.
\<close>

definition example_graph :: "int distil_graph" where
  "example_graph =
     distil_setup [((''teacher'', ''conv1/W''), \<lparr>p_data = 3, p_grad = 0\<rparr>)]
       [(''conv1/W'', 0), (''fc/W'', 7)] [(''conv1/W'', 1)]"

section \<open>Loops and traces\<close>

lemma for_loop_append:
  "for_loop body (xs @ ys) s =
     (case for_loop body xs s of Inl err \<Rightarrow> Inl err | Inr s' \<Rightarrow> for_loop body ys s')"
  by (induction xs arbitrary: s) (auto split: sum.splits)

lemma for_loop_snoc:
  "for_loop body (xs @ [i]) s =
     (case for_loop body xs s of Inl err \<Rightarrow> Inl err | Inr s' \<Rightarrow> body i s')"
  by (simp add: for_loop_append split: sum.splits)

lemma train_steps_append: "train_steps (xs @ ys) = train_steps xs @ train_steps ys"
  by (induction xs rule: train_steps.induct) auto

lemma validations_append: "validations (xs @ ys) = validations xs @ validations ys"
  by (induction xs rule: validations.induct) auto

lemma learning_rates_append: "learning_rates (xs @ ys) = learning_rates xs @ learning_rates ys"
  by (induction xs rule: learning_rates.induct) auto

lemma saved_files_append: "saved_files (xs @ ys) = saved_files xs @ saved_files ys"
  by (induction xs rule: saved_files.induct) auto

text \<open>What the validation block appends to the trace.\<close>

lemma validation_block_trace:
  assumes "validation_block a e i s = Inr s'"
  shows "\<exists>new. st_trace s' = st_trace s @ new \<and> train_steps new = [] \<and> validations new = [i]
           \<and> learning_rates new = [] \<and> (mpi_rank e \<noteq> 0 \<longrightarrow> filter is_write new = [])
           \<and> st_lr s' = st_lr s"
  using assms
  by (auto simp: validation_block_def Let_def split: sum.splits if_splits)

lemma train_step_trace:
  assumes "train_step a e wi ws i s = Inr s'"
  shows "\<exists>new. st_trace s' = st_trace s @ new \<and> train_steps new = [i]
           \<and> validations new =
               (if int i mod py_int (real n_train_samples / real (batch_size a) / real (n_devices e)) = 0
                then [i] else [])
           \<and> learning_rates new = (if int i \<le> wi then [learning_rate a + ws * real i] else [])
           \<and> (mpi_rank e \<noteq> 0 \<longrightarrow> filter is_write new = [])
           \<and> st_lr s' = (if int i \<le> wi then learning_rate a + ws * real i else st_lr s)"
proof -
  let ?vi = "py_int (real n_train_samples / real (batch_size a) / real (n_devices e))"
  show ?thesis
  proof (cases "int i mod ?vi = 0")
    case True
    with assms obtain s1 where v: "validation_block a e i s = Inr s1"
      by (auto simp: train_step_def Let_def split: sum.splits if_splits)
    from validation_block_trace[OF v] obtain new1 where
      n1: "st_trace s1 = st_trace s @ new1" "train_steps new1 = []" "validations new1 = [i]"
        "learning_rates new1 = []" "mpi_rank e \<noteq> 0 \<longrightarrow> filter is_write new1 = []" "st_lr s1 = st_lr s"
      by blast
    from assms v True n1 show ?thesis
      by (auto simp: train_step_def Let_def train_steps_append validations_append
            learning_rates_append split: if_splits)
  next
    case False
    with assms show ?thesis
      by (auto simp: train_step_def Let_def split: if_splits)
  qed
qed


lemma train_loop_trace:
  assumes "for_loop (train_step a e wi ws) [m..<n] s = Inr s'"
  shows "\<exists>new. st_trace s' = st_trace s @ new \<and> train_steps new = [m..<n]
           \<and> validations new =
               filter (\<lambda>i. int i mod py_int (real n_train_samples / real (batch_size a) / real (n_devices e)) = 0) [m..<n]
           \<and> learning_rates new =
               map (\<lambda>i. learning_rate a + ws * real i) (filter (\<lambda>i. int i \<le> wi) [m..<n])
           \<and> (mpi_rank e \<noteq> 0 \<longrightarrow> filter is_write new = [])"
  using assms
proof (induction n arbitrary: s')
  case 0
  then show ?case by simp
next
  case (Suc n)
  show ?case
  proof (cases "m \<le> n")
    case False
    with Suc.prems show ?thesis by simp
  next
    case True
    then have split: "[m..<Suc n] = [m..<n] @ [n]" by simp
    from Suc.prems obtain t where t: "for_loop (train_step a e wi ws) [m..<n] s = Inr t"
      and step: "train_step a e wi ws n t = Inr s'"
      unfolding split for_loop_snoc by (auto split: sum.splits)
    from Suc.IH[OF t] obtain new1 where n1: "st_trace t = st_trace s @ new1"
      "train_steps new1 = [m..<n]"
      "validations new1 =
         filter (\<lambda>i. int i mod py_int (real n_train_samples / real (batch_size a) / real (n_devices e)) = 0) [m..<n]"
      "learning_rates new1 = map (\<lambda>i. learning_rate a + ws * real i) (filter (\<lambda>i. int i \<le> wi) [m..<n])"
      "mpi_rank e \<noteq> 0 \<longrightarrow> filter is_write new1 = []"
      by blast
    from train_step_trace[OF step] obtain new2 where n2: "st_trace s' = st_trace t @ new2"
      "train_steps new2 = [n]"
      "validations new2 =
         (if int n mod py_int (real n_train_samples / real (batch_size a) / real (n_devices e)) = 0
          then [n] else [])"
      "learning_rates new2 = (if int n \<le> wi then [learning_rate a + ws * real n] else [])"
      "mpi_rank e \<noteq> 0 \<longrightarrow> filter is_write new2 = []"
      by blast
    show ?thesis
    proof (intro exI[of _ "new1 @ new2"] conjI)
      show "st_trace s' = st_trace s @ new1 @ new2" using n1(1) n2(1) by simp
      show "train_steps (new1 @ new2) = [m..<Suc n]"
        using n1(2) n2(2) True by (simp add: train_steps_append)
      show "validations (new1 @ new2) =
         filter (\<lambda>i. int i mod py_int (real n_train_samples / real (batch_size a) / real (n_devices e)) = 0) [m..<Suc n]"
        using n1(3) n2(3) True by (simp add: validations_append)
      show "learning_rates (new1 @ new2) =
         map (\<lambda>i. learning_rate a + ws * real i) (filter (\<lambda>i. int i \<le> wi) [m..<Suc n])"
        using n1(4) n2(4) True by (simp add: learning_rates_append)
      show "mpi_rank e \<noteq> 0 \<longrightarrow> filter is_write (new1 @ new2) = []"
        using n1(5) n2(5) by simp
    qed
  qed
qed

text \<open>The learning rate after the loop has run the iterations from m up to n.\<close>

lemma train_loop_lr_warmup:
  assumes "for_loop (train_step a e wi ws) [m..<Suc i] s = Inr s'" and "m \<le> i" and "int i \<le> wi"
  shows "st_lr s' = learning_rate a + ws * real i"
proof -
  from assms(2) have split: "[m..<Suc i] = [m..<i] @ [i]" by simp
  from assms(1) obtain t where step: "train_step a e wi ws i t = Inr s'"
    unfolding split for_loop_snoc by (auto split: sum.splits)
  from train_step_trace[OF step] assms(3) show ?thesis by auto
qed

lemma train_loop_lr_after:
  assumes "for_loop (train_step a e wi ws) [m..<n] s = Inr s'" and "wi < int m"
  shows "st_lr s' = st_lr s"
  using assms
proof (induction n arbitrary: s')
  case 0
  then show ?case by simp
next
  case (Suc n)
  show ?case
  proof (cases "m \<le> n")
    case False
    with Suc.prems show ?thesis by simp
  next
    case True
    then have split: "[m..<Suc n] = [m..<n] @ [n]" by simp
    from Suc.prems(1) obtain t where t: "for_loop (train_step a e wi ws) [m..<n] s = Inr t"
      and step: "train_step a e wi ws n t = Inr s'"
      unfolding split for_loop_snoc by (auto split: sum.splits)
    have "st_lr t = st_lr s" using Suc.IH[OF t Suc.prems(2)] .
    moreover have "st_lr s' = st_lr t"
      using train_step_trace[OF step] True Suc.prems(2) by auto
    ultimately show ?thesis by simp
  qed
qed

lemma for_loop_upt_split:
  assumes "m \<le> k" and "k \<le> n"
  shows "for_loop body [m..<n] s =
     (case for_loop body [m..<k] s of Inl err \<Rightarrow> Inl err | Inr t \<Rightarrow> for_loop body [k..<n] t)"
proof -
  have "[m..<n] = [m..<k] @ [k..<n]" using assms by (metis le_Suc_ex upt_add_eq_append)
  then show ?thesis by (simp add: for_loop_append)
qed

lemma train_loop_lr_kept:
  assumes run: "for_loop (train_step a e wi ws) [m..<n] s = Inr s'"
    and "int m \<le> wi" and "wi < int n"
  shows "st_lr s' = learning_rate a + ws * real_of_int wi"
proof -
  define w where "w = nat wi"
  have w: "int w = wi" "m \<le> w" "Suc w \<le> n" using assms(2,3) by (auto simp: w_def)
  from run obtain t where t: "for_loop (train_step a e wi ws) [m..<Suc w] s = Inr t"
    and rest: "for_loop (train_step a e wi ws) [Suc w..<n] t = Inr s'"
    using for_loop_upt_split[of m "Suc w" n "train_step a e wi ws" s] w
    by (auto split: sum.splits)
  have "st_lr t = learning_rate a + ws * real w"
    using train_loop_lr_warmup[OF t] w by simp
  moreover have "st_lr s' = st_lr t"
    using train_loop_lr_after[OF rest] w by simp
  ultimately show ?thesis using w(1) by (metis of_int_of_nat_eq)
qed

section \<open>The concrete run\<close>

lemma ex_local: "local_errors example_args (example_env r) i = Inr [1/4, 1/4]"
  by (simp add: example_args_def example_env_def local_errors_def
      validation_local_def n_valid_samples_def py_int_def py_range_def py_slice_def
      upt_conv_Cons)

lemma ex_init: "train_init example_args (example_env r) =
   Inr (0, \<lparr>st_lr = 1/1000, st_model_save_interval = 0, st_ve = None,
                   st_trace = [Set_learning_rate (1/1000)]\<rparr>)"
  by (simp add: example_args_def example_env_def train_init_def resume_def warmup_iter_of_def
        n_train_samples_def py_int_def)

section \<open>Runs of the distributed loop\<close>

lemma for_loop_total:
  assumes "\<And>i s. i \<in> set xs \<Longrightarrow> \<exists>s'. body i s = Inr s'"
  shows "\<exists>s'. for_loop body xs s = Inr s'"
  using assms
proof (induction xs arbitrary: s)
  case Nil
  then show ?case by simp
next
  case (Cons i xs)
  from Cons.prems[of i s] obtain t where t: "body i s = Inr t" by auto
  from Cons.IH[of t] Cons.prems obtain s' where "for_loop body xs t = Inr s'" by auto
  with t show ?case by simp
qed

lemma validation_block_total:
  assumes "validation a e i = Inr v"
  shows "\<exists>s'. validation_block a e i s = Inr s'"
  using assms by (simp add: validation_block_def Let_def)

lemma train_step_total:
  assumes "py_int (real n_train_samples / real (batch_size a) / real (n_devices e)) \<noteq> 0"
    and "\<And>j. \<exists>v. validation a e j = Inr v"
  shows "\<exists>s'. train_step a e wi ws i s = Inr s'"
proof -
  from assms(2) obtain v where "validation a e i = Inr v" by blast
  from validation_block_total[OF this] obtain s1 where "validation_block a e i s = Inr s1" by blast
  with assms(1) show ?thesis by (simp add: train_step_def Let_def)
qed

lemma train_init_interval:
  assumes "train_init a e = Inr (start, s0)"
  shows "py_int (real n_train_samples / real (batch_size a) / real (n_devices e)) \<noteq> 0"
    and "warmup_iter_of a e \<noteq> 0" and "n_devices e \<noteq> 0"
    and "st_trace s0 = [Set_learning_rate (learning_rate a)]"
    and "resume a e (learning_rate a) = Inr (start, st_lr s0)"
  using assms
  by (auto simp: train_init_def warmup_iter_of_def split: if_splits sum.splits prod.splits)

lemma train_loop_total:
  assumes "train_init a e = Inr (start, s0)" and "\<And>j. \<exists>v. validation a e j = Inr v"
  shows "\<exists>s'. train_loop a e start n s = Inr s'"
  unfolding train_loop_def
  by (rule for_loop_total) (rule train_step_total[OF train_init_interval(1)[OF assms(1)] assms(2)])

lemma train_total:
  assumes "train_init a e = Inr (start, s0)" and "\<And>j. \<exists>v. validation a e j = Inr v"
  shows "\<exists>s. train a e = Inr s"
proof -
  from train_loop_total[OF assms] obtain s' where
    "train_loop a e start (n_steps a e) s0 = Inr s'" by blast
  with assms(1) show ?thesis by (simp add: train_def)
qed

lemma resume_fresh:
  assumes "\<not> use_latest_checkpoint a \<or> files e = []"
  shows "resume a e lr = Inr (0, lr)"
  using assms by (auto simp: resume_def)

lemma train_trace:
  assumes "train a e = Inr s"
  shows "\<exists>start s0. train_init a e = Inr (start, s0)
           \<and> train_steps (st_trace s) = [start..<n_steps a e]
           \<and> validations (st_trace s) =
               filter (\<lambda>i. int i mod py_int (real n_train_samples / real (batch_size a) / real (n_devices e)) = 0)
                 [start..<n_steps a e]
           \<and> (mpi_rank e \<noteq> 0 \<longrightarrow> filter is_write (st_trace s) = [])"
proof -
  from assms obtain start s0 s1 where init: "train_init a e = Inr (start, s0)"
    and loop: "train_loop a e start (n_steps a e) s0 = Inr s1"
    and fin: "s = train_finish a e s1"
    by (auto simp: train_def split: sum.splits prod.splits)
  from train_loop_trace[OF loop[unfolded train_loop_def]] obtain new where
    new: "st_trace s1 = st_trace s0 @ new" "train_steps new = [start..<n_steps a e]"
      "validations new =
         filter (\<lambda>i. int i mod py_int (real n_train_samples / real (batch_size a) / real (n_devices e)) = 0)
           [start..<n_steps a e]"
      "mpi_rank e \<noteq> 0 \<longrightarrow> filter is_write new = []"
    by blast
  have t0: "st_trace s0 = [Set_learning_rate (learning_rate a)]"
    using train_init_interval(4)[OF init] .
  have "train_steps (st_trace s) = [start..<n_steps a e]"
    using new(1,2) t0 fin by (simp add: train_finish_def train_steps_append)
  moreover have "validations (st_trace s) =
      filter (\<lambda>i. int i mod py_int (real n_train_samples / real (batch_size a) / real (n_devices e)) = 0)
        [start..<n_steps a e]"
    using new(1,3) t0 fin by (simp add: train_finish_def validations_append)
  moreover have "mpi_rank e \<noteq> 0 \<longrightarrow> filter is_write (st_trace s) = []"
    using new(1,4) t0 fin by (simp add: train_finish_def)
  ultimately show ?thesis using init by blast
qed

text \<open>
  Claim C3. A run that does not resume from a checkpoint and returns has trained at the
  iterations \<open>0, ..., int(max_iter / n_devices) - 1\<close>, once each and in this order,
  so at exactly \<open>int(max_iter / n_devices)\<close> iterations on the rank; it has validated
  at exactly those of these iterations \<open>i\<close> with
  \<open>i % int(n_train_samples / batch_size / n_devices) == 0\<close>; and with
  \<open>max_iter = 20\<close> on two ranks it has trained ten times.
\<close>

theorem fresh_run_steps_and_validations:
  assumes "train a e = Inr s" and "\<not> use_latest_checkpoint a \<or> files e = []"
  shows "train_steps (st_trace s) = [0..<nat (py_int (real_of_int (max_iter a) / real (n_devices e)))]
       \<and> length (train_steps (st_trace s)) = nat (py_int (real_of_int (max_iter a) / real (n_devices e)))
       \<and> validations (st_trace s) =
           filter (\<lambda>i. int i mod py_int (real n_train_samples / real (batch_size a) / real (n_devices e)) = 0)
             [0..<nat (py_int (real_of_int (max_iter a) / real (n_devices e)))]
       \<and> (max_iter a = 20 \<and> n_devices e = 2 \<longrightarrow> length (train_steps (st_trace s)) = 10)"
proof -
  from train_trace[OF assms(1)] obtain start s0 where
    init: "train_init a e = Inr (start, s0)"
    and ts: "train_steps (st_trace s) = [start..<n_steps a e]"
    and vs: "validations (st_trace s) =
               filter (\<lambda>i. int i mod py_int (real n_train_samples / real (batch_size a) / real (n_devices e)) = 0)
                 [start..<n_steps a e]"
    by blast
  have "start = 0"
    using train_init_interval(5)[OF init] resume_fresh[OF assms(2), of "learning_rate a"] by simp
  moreover have "max_iter a = 20 \<and> n_devices e = 2 \<longrightarrow> n_steps a e = 10"
    by (simp add: n_steps_def py_int_def)
  ultimately show ?thesis using ts vs by (simp add: n_steps_def)
qed

lemma ex_validation: "r < 2 \<Longrightarrow> \<exists>v. validation example_args (example_env r) j = Inr v"
  by (simp add: validation_def ex_local)

theorem fresh_run_steps_and_validations_witness:
  "\<exists>s. train example_args (example_env 0) = Inr s
       \<and> train_steps (st_trace s) = [0, 1, 2, 3, 4, 5, 6, 7, 8, 9]
       \<and> length (train_steps (st_trace s)) = 10
       \<and> validations (st_trace s) = [0, 5]"
proof -
  obtain s where s: "train example_args (example_env 0) = Inr s"
    using train_total[OF ex_init ex_validation] by (metis zero_less_numeral)
  have fresh: "\<not> use_latest_checkpoint example_args \<or> files (example_env 0) = []"
    by (simp add: example_args_def)
  have n: "nat (py_int (real_of_int (max_iter example_args) / real (n_devices (example_env 0)))) = 10"
    by (simp add: example_args_def example_env_def py_int_def)
  have v: "py_int (real n_train_samples / real (batch_size example_args) / real (n_devices (example_env 0))) = 5"
    by (simp add: example_args_def example_env_def py_int_def n_train_samples_def)
  have "train_steps (st_trace s) = [0, 1, 2, 3, 4, 5, 6, 7, 8, 9]
       \<and> length (train_steps (st_trace s)) = 10
       \<and> validations (st_trace s) = [0, 5]"
    using fresh_run_steps_and_validations[OF s fresh] unfolding n v
    by (simp add: upt_conv_Cons)
  with s show ?thesis by blast
qed

text \<open>
  Claim C6. On a rank other than 0 no iteration of the loop adds a monitor entry, a
  parameter snapshot or a checkpoint to the trace, and a whole run that returns has
  written nothing: all writes are made on rank 0.
\<close>

theorem no_writes_off_rank_0:
  assumes "mpi_rank e \<noteq> 0"
  shows "(train_step a e wi ws i s = Inr s' \<longrightarrow>
            filter is_write (st_trace s') = filter is_write (st_trace s))
       \<and> (train a e = Inr s'' \<longrightarrow> filter is_write (st_trace s'') = [])"
proof (intro conjI impI)
  assume "train_step a e wi ws i s = Inr s'"
  from train_step_trace[OF this] assms
  show "filter is_write (st_trace s') = filter is_write (st_trace s)" by auto
next
  assume "train a e = Inr s''"
  from train_trace[OF this] assms show "filter is_write (st_trace s'') = []" by auto
qed

theorem no_writes_off_rank_0_witness:
  "mpi_rank (example_env 1) \<noteq> 0
   \<and> (\<exists>s. train example_args (example_env 1) = Inr s \<and> filter is_write (st_trace s) = [])"
proof -
  have r: "mpi_rank (example_env 1) \<noteq> 0" by (simp add: example_env_def)
  obtain s where s: "train example_args (example_env 1) = Inr s"
    using train_total[OF ex_init ex_validation] by (metis one_less_numeral_iff semiring_norm(76))
  from no_writes_off_rank_0[OF r, of example_args _ _ _ _ _ s] s
  have "filter is_write (st_trace s) = []" by simp
  with r s show ?thesis by blast
qed

section \<open>The learning rate\<close>

lemma lr_after_cases:
  assumes "train_init a e = Inr (start, s0)" and "lr_after a e i = Inr r"
  obtains s where "train_loop a e start (Suc i) s0 = Inr s" and "r = st_lr s"
proof (cases "train_loop a e start (Suc i) s0")
  case (Inl err)
  with assms show ?thesis by (simp add: lr_after_def)
next
  case (Inr s)
  with assms have "r = st_lr s" by (simp add: lr_after_def)
  with Inr that show ?thesis by blast
qed

lemma lr_after_total:
  assumes "train_init a e = Inr (start, s0)" and "\<And>j. \<exists>v. validation a e j = Inr v"
  shows "\<exists>r. lr_after a e i = Inr r"
proof -
  from train_loop_total[OF assms] obtain s where "train_loop a e start (Suc i) s0 = Inr s"
    by blast
  with assms(1) show ?thesis by (simp add: lr_after_def)
qed

lemma lr_after_warmup:
  assumes "train_init a e = Inr (start, s0)" and "lr_after a e i = Inr r"
    and "start \<le> i" and "int i \<le> warmup_iter_of a e"
  shows "r = learning_rate a + warmup_slope_of a e * real i"
proof -
  from assms(1,2) obtain s where s: "train_loop a e start (Suc i) s0 = Inr s" and r: "r = st_lr s"
    by (rule lr_after_cases)
  from train_loop_lr_warmup[OF s[unfolded train_loop_def] assms(3,4)] r show ?thesis by simp
qed

lemma lr_after_kept:
  assumes "train_init a e = Inr (start, s0)" and "lr_after a e i = Inr r"
    and "int start \<le> warmup_iter_of a e" and "warmup_iter_of a e < int i"
  shows "r = learning_rate a + warmup_slope_of a e * real_of_int (warmup_iter_of a e)"
proof -
  from assms(1,2) obtain s where s: "train_loop a e start (Suc i) s0 = Inr s" and r: "r = st_lr s"
    by (rule lr_after_cases)
  have "warmup_iter_of a e < int (Suc i)" using assms(4) by simp
  from train_loop_lr_kept[OF s[unfolded train_loop_def] assms(3) this] r show ?thesis by simp
qed

lemma slope_times_warmup:
  assumes "warmup_iter_of a e \<noteq> 0"
  shows "learning_rate a + warmup_slope_of a e * real_of_int (warmup_iter_of a e)
           = learning_rate a * real (n_devices e)"
proof -
  have "learning_rate a * (real (n_devices e) - 1) / real_of_int (warmup_iter_of a e)
          * real_of_int (warmup_iter_of a e) = learning_rate a * (real (n_devices e) - 1)"
    using assms by simp
  then show ?thesis by (simp add: warmup_slope_of_def algebra_simps)
qed

lemma train_step_new_rates:
  assumes "train_step a e wi ws i s = Inr s'"
  shows "learning_rates (drop (length (st_trace s)) (st_trace s')) =
           (if int i \<le> wi then [learning_rate a + ws * real i] else [])"
  using train_step_trace[OF assms] by auto

text \<open>
  Claim C9. While \<open>i <= warmup_iter\<close> the iteration sets the learning rate
  \<open>base_lr + warmup_slope * i\<close>, with
  \<open>warmup_slope = base_lr * (n_devices - 1) / warmup_iter\<close>; an iteration after the
  warmup makes no \<open>set_learning_rate\<close> call and leaves the solver's rate as it was.
  So a run that went through iteration \<open>warmup_iter\<close> keeps the rate set there,
  \<open>base_lr + warmup_slope * warmup_iter = base_lr * n_devices\<close>, at every later
  iteration: it is not set back to \<open>base_lr\<close>.
\<close>

theorem warmup_rate_then_kept:
  "(train_step a e (warmup_iter_of a e) (warmup_slope_of a e) i s = Inr s' \<longrightarrow>
      (int i \<le> warmup_iter_of a e \<longrightarrow>
         st_lr s' = learning_rate a +
            learning_rate a * (real (n_devices e) - 1) / real_of_int (warmup_iter_of a e) * real i
         \<and> learning_rates (drop (length (st_trace s)) (st_trace s')) = [st_lr s'])
    \<and> (warmup_iter_of a e < int i \<longrightarrow>
         st_lr s' = st_lr s
         \<and> learning_rates (drop (length (st_trace s)) (st_trace s')) = []))
   \<and> (train_init a e = Inr (start, s0) \<and> int start \<le> warmup_iter_of a e
        \<and> warmup_iter_of a e < int j \<and> lr_after a e j = Inr r \<longrightarrow>
         r = learning_rate a + warmup_slope_of a e * real_of_int (warmup_iter_of a e)
         \<and> r = learning_rate a * real (n_devices e))"
proof (intro conjI impI)
  assume step: "train_step a e (warmup_iter_of a e) (warmup_slope_of a e) i s = Inr s'"
    and w: "int i \<le> warmup_iter_of a e"
  from train_step_trace[OF step] w
  show lr: "st_lr s' = learning_rate a +
            learning_rate a * (real (n_devices e) - 1) / real_of_int (warmup_iter_of a e) * real i"
    by (auto simp: warmup_slope_of_def)
  from train_step_new_rates[OF step] w lr
  show "learning_rates (drop (length (st_trace s)) (st_trace s')) = [st_lr s']"
    by (simp add: warmup_slope_of_def)
next
  assume step: "train_step a e (warmup_iter_of a e) (warmup_slope_of a e) i s = Inr s'"
    and w: "warmup_iter_of a e < int i"
  from train_step_trace[OF step] w show "st_lr s' = st_lr s" by auto
  from train_step_new_rates[OF step] w
  show "learning_rates (drop (length (st_trace s)) (st_trace s')) = []" by simp
next
  assume h: "train_init a e = Inr (start, s0) \<and> int start \<le> warmup_iter_of a e
        \<and> warmup_iter_of a e < int j \<and> lr_after a e j = Inr r"
  then show kept: "r = learning_rate a + warmup_slope_of a e * real_of_int (warmup_iter_of a e)"
    using lr_after_kept[of a e start s0 j r] by blast
  from h have "warmup_iter_of a e \<noteq> 0" using train_init_interval(2)[of a e start s0] by blast
  from slope_times_warmup[OF this] kept show "r = learning_rate a * real (n_devices e)" by simp
qed

lemma ex_warmup: "warmup_iter_of example_args (example_env r) = 5"
  "warmup_slope_of example_args (example_env r) = 1 / 5000"
  "learning_rate example_args = 1 / 1000" "real (n_devices (example_env r)) = 2"
  by (simp_all add: warmup_slope_of_def warmup_iter_of_def example_args_def example_env_def
      n_train_samples_def py_int_def)

lemma ex_interval:
  "py_int (real n_train_samples / real (batch_size example_args) / real (n_devices (example_env r))) \<noteq> 0"
  by (simp add: example_args_def example_env_def n_train_samples_def py_int_def)

theorem warmup_rate_then_kept_witness:
  "(\<exists>s'. train_step example_args (example_env 0) (warmup_iter_of example_args (example_env 0))
            (warmup_slope_of example_args (example_env 0)) 3
            \<lparr>st_lr = 7 / 5000, st_model_save_interval = 2, st_ve = Some (1 / 4), st_trace = []\<rparr> = Inr s'
         \<and> st_lr s' = 1 / 625 \<and> st_trace s' \<noteq> [])
   \<and> (\<exists>s'. train_step example_args (example_env 0) (warmup_iter_of example_args (example_env 0))
            (warmup_slope_of example_args (example_env 0)) 7
            \<lparr>st_lr = 1 / 500, st_model_save_interval = 3, st_ve = Some (1 / 4), st_trace = []\<rparr> = Inr s'
         \<and> st_lr s' = 1 / 500)
   \<and> lr_after example_args (example_env 0) 7 = Inr (1 / 500)"
proof (intro conjI)
  let ?a = example_args and ?e = "example_env 0"
  have val: "\<And>j. \<exists>v. validation ?a ?e j = Inr v" by (rule ex_validation) simp
  obtain s3 where s3: "train_step ?a ?e (warmup_iter_of ?a ?e) (warmup_slope_of ?a ?e) 3
            \<lparr>st_lr = 7 / 5000, st_model_save_interval = 2, st_ve = Some (1 / 4), st_trace = []\<rparr> = Inr s3"
    using train_step_total[OF ex_interval val] by blast
  from warmup_rate_then_kept[where a = ?a and e = ?e and i = 3 and s' = s3
      and s = "\<lparr>st_lr = 7 / 5000, st_model_save_interval = 2, st_ve = Some (1 / 4), st_trace = []\<rparr>"] s3
  have "st_lr s3 = 1 / 625 \<and> learning_rates (st_trace s3) = [st_lr s3]"
    by (simp add: ex_warmup)
  then have "st_lr s3 = 1 / 625 \<and> st_trace s3 \<noteq> []" by auto
  with s3 show "\<exists>s'. train_step ?a ?e (warmup_iter_of ?a ?e) (warmup_slope_of ?a ?e) 3
            \<lparr>st_lr = 7 / 5000, st_model_save_interval = 2, st_ve = Some (1 / 4), st_trace = []\<rparr> = Inr s'
         \<and> st_lr s' = 1 / 625 \<and> st_trace s' \<noteq> []" by blast
  obtain s7 where s7: "train_step ?a ?e (warmup_iter_of ?a ?e) (warmup_slope_of ?a ?e) 7
            \<lparr>st_lr = 1 / 500, st_model_save_interval = 3, st_ve = Some (1 / 4), st_trace = []\<rparr> = Inr s7"
    using train_step_total[OF ex_interval val] by blast
  from warmup_rate_then_kept[where a = ?a and e = ?e and i = 7 and s' = s7
      and s = "\<lparr>st_lr = 1 / 500, st_model_save_interval = 3, st_ve = Some (1 / 4), st_trace = []\<rparr>"] s7
  have "st_lr s7 = 1 / 500" by (simp add: ex_warmup)
  with s7 show "\<exists>s'. train_step ?a ?e (warmup_iter_of ?a ?e) (warmup_slope_of ?a ?e) 7
            \<lparr>st_lr = 1 / 500, st_model_save_interval = 3, st_ve = Some (1 / 4), st_trace = []\<rparr> = Inr s'
         \<and> st_lr s' = 1 / 500" by blast
  obtain r where r: "lr_after ?a ?e 7 = Inr r"
    using lr_after_total[OF ex_init val] by blast
  have "r = learning_rate ?a * real (n_devices ?e)"
    using warmup_rate_then_kept[where a = ?a and e = ?e and start = 0 and j = 7 and r = r
        and ?s0.0 = "\<lparr>st_lr = 1 / 1000, st_model_save_interval = 0, st_ve = None,
                   st_trace = [Set_learning_rate (1 / 1000)]\<rparr>"] ex_init[of 0] r
    by (simp add: ex_warmup)
  with r show "lr_after ?a ?e 7 = Inr (1 / 500)" by (simp add: ex_warmup)
qed

text \<open>
  Claim C1, as amended. The warmup is linear from \<open>base_lr\<close> to
  \<open>base_lr * n_devices\<close> over \<open>warmup_iter\<close> iterations: for every iteration
  \<open>i <= warmup_iter\<close> that the run reaches, the learning rate the solver holds after
  iteration \<open>i\<close> lies on the line that is \<open>base_lr\<close> at \<open>i = 0\<close> and
  \<open>base_lr * n_devices\<close> at \<open>i = warmup_iter\<close>.
\<close>

theorem warmup_line:
  assumes "train_init a e = Inr (start, s0)" and "start \<le> i" and "int i \<le> warmup_iter_of a e"
    and "lr_after a e i = Inr r"
  shows "r = learning_rate a + (learning_rate a * real (n_devices e) - learning_rate a)
                 * (real i / real_of_int (warmup_iter_of a e))
       \<and> (i = 0 \<longrightarrow> r = learning_rate a)
       \<and> (int i = warmup_iter_of a e \<longrightarrow> r = learning_rate a * real (n_devices e))"
proof -
  have r: "r = learning_rate a + warmup_slope_of a e * real i"
    using lr_after_warmup[OF assms(1,4,2,3)] .
  have w: "warmup_iter_of a e \<noteq> 0" using train_init_interval(2)[OF assms(1)] .
  have line: "r = learning_rate a + (learning_rate a * real (n_devices e) - learning_rate a)
                 * (real i / real_of_int (warmup_iter_of a e))"
  proof -
    have "warmup_slope_of a e * real i =
            (learning_rate a * real (n_devices e) - learning_rate a)
              * (real i / real_of_int (warmup_iter_of a e))"
      by (simp add: warmup_slope_of_def algebra_simps diff_divide_distrib)
    with r show ?thesis by simp
  qed
  moreover have "i = 0 \<longrightarrow> r = learning_rate a" using r by simp
  moreover have "int i = warmup_iter_of a e \<longrightarrow> r = learning_rate a * real (n_devices e)"
  proof
    assume "int i = warmup_iter_of a e"
    then have "real i = real_of_int (warmup_iter_of a e)" by (metis of_int_of_nat_eq)
    with r slope_times_warmup[OF w] show "r = learning_rate a * real (n_devices e)" by simp
  qed
  ultimately show ?thesis by blast
qed

lemma ex_lr_after:
  assumes "i \<le> 5"
  shows "lr_after example_args (example_env 0) i = Inr (1 / 1000 + real i / 5000)"
proof -
  have val: "\<And>j. \<exists>v. validation example_args (example_env 0) j = Inr v"
    by (rule ex_validation) simp
  obtain r where r: "lr_after example_args (example_env 0) i = Inr r"
    using lr_after_total[OF ex_init val] by blast
  have "r = 1 / 1000 + real i / 5000"
    using lr_after_warmup[OF ex_init r] assms by (simp add: ex_warmup)
  with r show ?thesis by simp
qed

theorem warmup_line_witness:
  "lr_after example_args (example_env 0) 2 = Inr (7 / 5000)
   \<and> lr_after example_args (example_env 0) 5 = Inr (1 / 500)
   \<and> (7 / 5000 :: real) = 1 / 1000 + (1 / 1000 * 2 - 1 / 1000) * (2 / 5)
   \<and> (1 / 500 :: real) = 1 / 1000 * 2"
proof -
  have "lr_after example_args (example_env 0) 2 = Inr (1 / 1000 + real 2 / 5000)"
    by (rule ex_lr_after) simp
  then have r2: "lr_after example_args (example_env 0) 2 = Inr (7 / 5000)" by simp
  have "lr_after example_args (example_env 0) 5 = Inr (1 / 1000 + real 5 / 5000)"
    by (rule ex_lr_after) simp
  then have r5: "lr_after example_args (example_env 0) 5 = Inr (1 / 500)" by simp
  have w: "int 2 \<le> warmup_iter_of example_args (example_env 0)"
    "int 5 \<le> warmup_iter_of example_args (example_env 0)"
    by (simp_all add: ex_warmup)
  have l2: "(7 / 5000 :: real) = learning_rate example_args +
        (learning_rate example_args * real (n_devices (example_env 0)) - learning_rate example_args)
          * (real 2 / real_of_int (warmup_iter_of example_args (example_env 0)))"
    using warmup_line[OF ex_init le0 w(1) r2] by (rule conjunct1)
  have l5: "(1 / 500 :: real) = learning_rate example_args * real (n_devices (example_env 0))"
    using warmup_line[OF ex_init le0 w(2) r5] w(2) by (simp add: ex_warmup(1))
  from l2 have "(7 / 5000 :: real) = 1 / 1000 + (1 / 1000 * 2 - 1 / 1000) * (2 / 5)"
    unfolding ex_warmup by simp
  moreover from l5 have "(1 / 500 :: real) = 1 / 1000 * 2"
    unfolding ex_warmup by simp
  ultimately show ?thesis using r2 r5 by blast
qed

text \<open>
  The claim as it was stated fails on the run of the example: after iteration 0 the rate is
  \<open>base_lr\<close>, not 0, and after iteration \<open>warmup_iter = 5\<close> it is twice
  \<open>base_lr\<close>, not \<open>base_lr\<close>.
\<close>

theorem warmup_from_zero_counterexample:
  "learning_rate example_args = 1 / 1000
   \<and> warmup_iter_of example_args (example_env 0) = 5
   \<and> lr_after example_args (example_env 0) 0 = Inr (1 / 1000)
   \<and> lr_after example_args (example_env 0) 0 \<noteq> Inr 0
   \<and> lr_after example_args (example_env 0) 5 = Inr (1 / 500)
   \<and> lr_after example_args (example_env 0) 5 \<noteq> Inr (learning_rate example_args)"
proof -
  have "lr_after example_args (example_env 0) 0 = Inr (1 / 1000 + real 0 / 5000)"
    by (rule ex_lr_after) simp
  then have r0: "lr_after example_args (example_env 0) 0 = Inr (1 / 1000)" by simp
  have "lr_after example_args (example_env 0) 5 = Inr (1 / 1000 + real 5 / 5000)"
    by (rule ex_lr_after) simp
  then have r5: "lr_after example_args (example_env 0) 5 = Inr (1 / 500)" by simp
  show ?thesis unfolding r0 r5 by (simp add: ex_warmup)
qed

section \<open>Resuming from the latest checkpoint\<close>

lemma py_max_Max:
  assumes "xs \<noteq> []"
  shows "py_max xs = Max (set xs)"
proof -
  from assms obtain y ys where xs: "xs = y # ys" by (cases xs) auto
  have "py_max xs = fold max ys y" by (simp add: py_max_def xs)
  also have "\<dots> = Max (set (y # ys))" by (rule Max.set_eq_fold[symmetric])
  finally show ?thesis by (simp only: xs)
qed

lemma map_result_Inr:
  "map_result f xs = Inr ys \<Longrightarrow> list_all2 (\<lambda>x y. f x = Inr y) xs ys"
  by (induction xs arbitrary: ys) (auto split: sum.splits)

lemma map_result_set:
  assumes "map_result f xs = Inr ys"
  shows "set ys = {n. \<exists>x \<in> set xs. f x = Inr n}"
proof -
  have rel: "list_all2 (\<lambda>x y. f x = Inr y) xs ys" using map_result_Inr[OF assms] .
  show ?thesis
  proof (intro set_eqI iffI)
    fix n assume "n \<in> set ys"
    then obtain k where k: "k < length ys" "ys ! k = n" by (auto simp: in_set_conv_nth)
    with rel have "f (xs ! k) = Inr n" "k < length xs"
      by (auto simp: list_all2_conv_all_nth)
    then show "n \<in> {n. \<exists>x \<in> set xs. f x = Inr n}" by auto
  next
    fix n assume "n \<in> {n. \<exists>x \<in> set xs. f x = Inr n}"
    then obtain x where "x \<in> set xs" "f x = Inr n" by auto
    then obtain k where k: "k < length xs" "xs ! k = x" by (auto simp: in_set_conv_nth)
    with rel \<open>f x = Inr n\<close> have "ys ! k = n" "k < length ys"
      by (auto simp: list_all2_conv_all_nth)
    then show "n \<in> set ys" by auto
  qed
qed

text \<open>
  Claim C7. With \<open>use_latest_checkpoint\<close> set and a non-empty list of files
  \<open>checkpoint_<idx>.json\<close> (every file name yields an index), the start of the loop is
  what \<open>load_checkpoint\<close> returns for the checkpoint file named by the greatest of
  the indices taken from the file names; with no such file the loop starts at iteration 0.
  The loop then runs from that iteration.
\<close>

theorem resume_loads_highest_index:
  "(use_latest_checkpoint a \<and> files e \<noteq> [] \<and> map_result (index_of e) (files e) = Inr indices \<longrightarrow>
       length indices = length (files e)
     \<and> set indices = {n. \<exists>f \<in> set (files e). index_of e f = Inr n}
     \<and> resume a e lr =
         load_checkpoint e (checkpoint_file (model_save_path a) (Max (set indices))) lr)
   \<and> (files e = [] \<longrightarrow> resume a e lr = Inr (0, lr))
   \<and> (train a e = Inr s \<and> resume a e (learning_rate a) = Inr (start_point, lr0) \<longrightarrow>
         train_steps (st_trace s) = [start_point..<n_steps a e])"
proof (intro conjI impI)
  assume h: "use_latest_checkpoint a \<and> files e \<noteq> [] \<and> map_result (index_of e) (files e) = Inr indices"
  then have m: "map_result (index_of e) (files e) = Inr indices" by blast
  from map_result_Inr[OF m] show len: "length indices = length (files e)"
    by (simp add: list_all2_lengthD)
  from map_result_set[OF m]
  show "set indices = {n. \<exists>f \<in> set (files e). index_of e f = Inr n}" .
  from len h have "indices \<noteq> []" by auto
  from py_max_Max[OF this] h
  show "resume a e lr =
         load_checkpoint e (checkpoint_file (model_save_path a) (Max (set indices))) lr"
    by (simp add: resume_def)
next
  assume "files e = []"
  then show "resume a e lr = Inr (0, lr)" by (simp add: resume_def)
next
  assume h: "train a e = Inr s \<and> resume a e (learning_rate a) = Inr (start_point, lr0)"
  then obtain start s0 where init: "train_init a e = Inr (start, s0)"
    and ts: "train_steps (st_trace s) = [start..<n_steps a e]"
    using train_trace[of a e s] by blast
  from train_init_interval(5)[OF init] h have "start = start_point" by simp
  with ts show "train_steps (st_trace s) = [start_point..<n_steps a e]" by simp
qed

lemma resume_files:
  "map_result (index_of resume_env) (files resume_env) = Inr [5, 120, 40]"
  unfolding resume_env_def by code_simp

lemma resume_path:
  "checkpoint_file (model_save_path resume_args) 120 = ''out/checkpoint_120.json''"
  unfolding resume_args_def example_args_def by code_simp

theorem resume_loads_highest_index_witness:
  "use_latest_checkpoint resume_args \<and> files resume_env \<noteq> []
   \<and> map_result (index_of resume_env) (files resume_env) = Inr [5, 120, 40]
   \<and> resume resume_args resume_env (1 / 1000) = Inr (120, 1 / 1000)"
proof -
  have u: "use_latest_checkpoint resume_args" by (simp add: resume_args_def)
  have f: "files resume_env \<noteq> []" by (simp add: resume_env_def)
  have "resume resume_args resume_env (1 / 1000) =
          load_checkpoint resume_env
            (checkpoint_file (model_save_path resume_args) (Max (set [5, 120, 40]))) (1 / 1000)"
    using resume_loads_highest_index[of resume_args resume_env "[5, 120, 40]" "1 / 1000"]
      u f resume_files by blast
  also have "Max (set [5, 120, 40 :: int]) = 120" by simp
  also have "load_checkpoint resume_env (checkpoint_file (model_save_path resume_args) 120) (1 / 1000)
               = Inr (120, 1 / 1000)"
    unfolding resume_path by (simp add: resume_env_def)
  finally show ?thesis using u f resume_files by blast
qed

section \<open>Validation\<close>

lemma valid_loop_sum:
  "valid_loop ev vals bs js (ve_local, k) =
     (ve_local + sum_list (map ev (filter (\<lambda>b. length b = bs) (map (\<lambda>j. py_slice vals j (j + bs)) js))),
      k + length (filter (\<lambda>b. length b = bs) (map (\<lambda>j. py_slice vals j (j + bs)) js)))"
  by (induction js arbitrary: ve_local k) (simp_all add: Let_def)

lemma validation_local_full_batches:
  assumes "nd \<noteq> 0" and "bs \<noteq> 0"
  shows "validation_local nd rank bs ev vals =
     (if full_batches nd rank bs vals = [] then Inl ZeroDivisionError
      else Inr (sum_list (map ev (full_batches nd rank bs vals))
                 / real (length (full_batches nd rank bs vals))))"
proof -
  have loop: "valid_loop ev vals bs
      (py_range (nat (py_int (real n_valid_samples / real nd * real rank)))
                (nat (py_int (real n_valid_samples / real nd * real (rank + 1)))) bs) (0, 0)
     = (sum_list (map ev (full_batches nd rank bs vals)), length (full_batches nd rank bs vals))"
    unfolding valid_loop_sum full_batches_def partition_slices_def by simp
  show ?thesis unfolding validation_local_def loop using assms by simp
qed

text \<open>
  Claim C8. A slice whose length is not \<open>bs_valid\<close> leaves the error sum and the
  batch count as they were; a slice of that length adds its error and counts once. Every
  batch that counts is a slice of the validation samples of exactly that length, so none
  is padded, and the local mean error is the mean of the errors of the full-size batches
  alone (the division raises when there is none). The slices are those the rank takes: a
  slice starts in the rank's range and is cut only by the end of the validation samples.
\<close>

theorem short_batches_are_skipped:
  "(length (py_slice vals j (j + bs)) \<noteq> bs \<longrightarrow>
      valid_loop ev vals bs (j # js) (ve_local, k) = valid_loop ev vals bs js (ve_local, k))
   \<and> (length (py_slice vals j (j + bs)) = bs \<longrightarrow>
      valid_loop ev vals bs (j # js) (ve_local, k) =
        valid_loop ev vals bs js (ve_local + ev (py_slice vals j (j + bs)), k + 1))
   \<and> (\<forall>batch \<in> set (full_batches nd rank bs vals).
        length batch = bs \<and> (\<exists>j. batch = take bs (drop j vals)))
   \<and> (nd \<noteq> 0 \<and> bs \<noteq> 0 \<longrightarrow>
        validation_local nd rank bs ev vals =
          (if full_batches nd rank bs vals = [] then Inl ZeroDivisionError
           else Inr (sum_list (map ev (full_batches nd rank bs vals))
                      / real (length (full_batches nd rank bs vals)))))"
proof (intro conjI impI ballI)
  assume "length (py_slice vals j (j + bs)) \<noteq> bs"
  then show "valid_loop ev vals bs (j # js) (ve_local, k) = valid_loop ev vals bs js (ve_local, k)"
    by (simp add: Let_def)
next
  assume "length (py_slice vals j (j + bs)) = bs"
  then show "valid_loop ev vals bs (j # js) (ve_local, k) =
        valid_loop ev vals bs js (ve_local + ev (py_slice vals j (j + bs)), k + 1)"
    by (simp add: Let_def)
next
  fix batch assume b: "batch \<in> set (full_batches nd rank bs vals)"
  then show "length batch = bs" by (simp add: full_batches_def)
  from b obtain j where "batch = py_slice vals j (j + bs)"
    by (auto simp: full_batches_def partition_slices_def)
  then have "batch = take bs (drop j vals)" by (simp add: py_slice_def)
  then show "\<exists>j. batch = take bs (drop j vals)" by blast
next
  assume "nd \<noteq> 0 \<and> bs \<noteq> 0"
  then show "validation_local nd rank bs ev vals =
          (if full_batches nd rank bs vals = [] then Inl ZeroDivisionError
           else Inr (sum_list (map ev (full_batches nd rank bs vals))
                      / real (length (full_batches nd rank bs vals))))"
    using validation_local_full_batches by blast
qed

lemma ex_partition:
  "partition_slices 2 1 3000 example_vals = [replicate 3000 (1 / 2), replicate 2000 (3 / 4)]"
  by (simp add: partition_slices_def n_valid_samples_def py_int_def py_range_def py_slice_def
      example_vals_def upt_conv_Cons)

theorem short_batches_are_skipped_witness:
  "partition_slices 2 1 3000 example_vals = [replicate 3000 (1 / 2), replicate 2000 (3 / 4)]
   \<and> full_batches 2 1 3000 example_vals = [replicate 3000 (1 / 2)]
   \<and> validation_local 2 1 3000 batch_error example_vals = Inr (1 / 2)"
proof -
  have f: "full_batches 2 1 3000 example_vals = [replicate 3000 (1 / 2)]"
    unfolding full_batches_def ex_partition by simp
  have "validation_local 2 1 3000 batch_error example_vals =
          Inr (sum_list (map batch_error [replicate 3000 (1 / 2)]) / real (length [replicate 3000 (1 / 2 :: real)]))"
    using short_batches_are_skipped[of example_vals 0 3000 batch_error "[]" 0 0 2 1]
    unfolding f by simp
  also have "\<dots> = Inr (1 / 2)" by (simp add: batch_error_def sum_list_replicate)
  finally show ?thesis using f ex_partition by blast
qed

section \<open>The all-reduce of the validation error\<close>

lemma map_result_upt_nth:
  assumes "map_result f xs = Inr ys"
  shows "length ys = length xs" and "\<And>k. k < length xs \<Longrightarrow> f (xs ! k) = Inr (ys ! k)"
  using map_result_Inr[OF assms] by (auto simp: list_all2_conv_all_nth)

lemma all_reduce_nth:
  assumes "r < length xs"
  shows "all_reduce xs True ! r = (\<Sum>k<length xs. xs ! k) / real (length xs)"
  using assms by (simp add: all_reduce_def sum_list_sum_nth atLeast0LessThan)

text \<open>
  Claim C5. When every rank has computed its local mean error, the value each rank holds
  after the all-reduce with division is the arithmetic mean of the local mean errors of
  all ranks, and this is the validation error the rank goes on with. It holds for every
  number of ranks, so also for those that divide the number of validation samples.
\<close>

theorem all_reduce_is_mean_of_local_means:
  assumes "local_errors a e i = Inr ve_locals"
  shows "length ve_locals = n_devices e
       \<and> (\<forall>r < n_devices e.
            validation_local (n_devices e) r (batch_size a) (error_valid e r i) (val_data e r i)
              = Inr (ve_locals ! r)
            \<and> all_reduce ve_locals True ! r
              = (\<Sum>k<n_devices e. ve_locals ! k) / real (n_devices e))
       \<and> (mpi_rank e < n_devices e \<longrightarrow>
            validation a e i = Inr ((\<Sum>k<n_devices e. ve_locals ! k) / real (n_devices e)))"
proof -
  have len: "length ve_locals = n_devices e"
    using map_result_upt_nth(1)[OF assms[unfolded local_errors_def]] by simp
  have loc: "validation_local (n_devices e) r (batch_size a) (error_valid e r i) (val_data e r i)
              = Inr (ve_locals ! r)" if "r < n_devices e" for r
    using map_result_upt_nth(2)[OF assms[unfolded local_errors_def], of r] that by simp
  have red: "all_reduce ve_locals True ! r = (\<Sum>k<n_devices e. ve_locals ! k) / real (n_devices e)"
    if "r < n_devices e" for r
    using all_reduce_nth[of r ve_locals] that len by simp
  have "mpi_rank e < n_devices e \<longrightarrow>
            validation a e i = Inr ((\<Sum>k<n_devices e. ve_locals ! k) / real (n_devices e))"
    using assms red by (simp add: validation_def)
  with len loc red show ?thesis by blast
qed

lemma mean_local: "local_errors example_args mean_env i = Inr [1 / 4, 1 / 2]"
  by (simp add: example_args_def example_env_def mean_env_def local_errors_def
      validation_local_def n_valid_samples_def py_int_def py_range_def py_slice_def
      upt_conv_Cons)

theorem all_reduce_is_mean_of_local_means_witness:
  "local_errors example_args mean_env 0 = Inr [1 / 4, 1 / 2]
   \<and> all_reduce [1 / 4, 1 / 2] True ! 0 = 3 / 8
   \<and> all_reduce [1 / 4, 1 / 2] True ! 1 = 3 / 8
   \<and> validation example_args mean_env 0 = Inr (3 / 8)"
proof -
  have n: "n_devices mean_env = 2" "mpi_rank mean_env = 1"
    by (simp_all add: mean_env_def example_env_def)
  have s: "(\<Sum>k<2. [1 / 4, 1 / 2 :: real] ! k) / real 2 = 3 / 8"
    by (simp add: lessThan_nat_numeral lessThan_Suc)
  note t = all_reduce_is_mean_of_local_means[OF mean_local[of 0], unfolded n s]
  from t have "all_reduce [1 / 4, 1 / 2] True ! 0 = 3 / 8" by simp
  moreover from t have "all_reduce [1 / 4, 1 / 2] True ! 1 = 3 / 8" by simp
  moreover from t have "validation example_args mean_env 0 = Inr (3 / 8)" by simp
  ultimately show ?thesis using mean_local[of 0] by blast
qed

section \<open>The distillation loop\<close>

lemma distil_validate_cases:
  assumes "distil_validate a cerr i s = Inr s1"
  obtains v where "distil_validation (d_batch_size a) (cerr i) = Inr v"
    and "s1 = s\<lparr>ve := Some v, d_trace := d_trace s @ [Monitor_add ''Test error'' i (Some v)]\<rparr>"
proof (cases "distil_validation (d_batch_size a) (cerr i)")
  case (Inl err)
  with assms show ?thesis by (simp add: distil_validate_def)
next
  case (Inr v)
  with assms have "s1 = s\<lparr>ve := Some v, d_trace := d_trace s @ [Monitor_add ''Test error'' i (Some v)]\<rparr>"
    by (simp add: distil_validate_def)
  with Inr that show ?thesis by blast
qed

lemma save_best_fields:
  "ve (save_best a i v s) = ve s"
  "best_ve (save_best a i v s) = (if v < best_ve s then v else best_ve s)"
  "d_trace (save_best a i v s) =
     d_trace s @ (if v < best_ve s then [Save_parameters (params_file (d_model_save_path a) (int i))] else [])"
  by (simp_all add: save_best_def)

lemma distil_update_fields:
  "ve (distil_update i s) = ve s"
  "best_ve (distil_update i s) = best_ve s"
  "d_trace (distil_update i s) =
     d_trace s @ [Train_step i, Monitor_add ''Training loss'' i None,
                  Monitor_add ''Training error'' i None, Monitor_add ''Training time'' i None]"
  by (simp_all add: distil_update_def)

text \<open>What an iteration that returns has done.\<close>

lemma distil_step_result:
  assumes "distil_step a cerr i s = Inr s'"
  obtains v s1 where "ve s1 = Some v" and "best_ve s1 = best_ve s"
    and "s' = distil_update i (save_best a i v s1)"
    and "if int i mod d_val_interval a = 0
         then distil_validate a cerr i s = Inr s1 else s1 = s"
    and "\<exists>new. d_trace s1 = d_trace s @ new \<and> saved_files new = []"
proof -
  from assms have nz: "d_val_interval a \<noteq> 0"
    by (cases "d_val_interval a = 0") (simp_all add: distil_step_def)
  define pre where
    "pre = (if int i mod d_val_interval a = 0 then distil_validate a cerr i s else Inr s)"
  have step: "distil_step a cerr i s =
      (case pre of Inl err \<Rightarrow> Inl err
       | Inr s1 \<Rightarrow> (case ve s1 of None \<Rightarrow> Inl (UnboundLocalError ''ve'')
                     | Some v \<Rightarrow> Inr (distil_update i (save_best a i v s1))))"
    using nz by (simp add: distil_step_def pre_def)
  from assms step obtain s1 where s1: "pre = Inr s1" by (cases pre) auto
  from assms step s1 obtain v where v: "ve s1 = Some v" by (cases "ve s1") auto
  from assms step s1 v have s': "s' = distil_update i (save_best a i v s1)" by simp
  have c: "if int i mod d_val_interval a = 0
         then distil_validate a cerr i s = Inr s1 else s1 = s"
    using s1 by (simp add: pre_def split: if_splits)
  have "best_ve s1 = best_ve s \<and> (\<exists>new. d_trace s1 = d_trace s @ new \<and> saved_files new = [])"
  proof (cases "int i mod d_val_interval a = 0")
    case True
    with c have "distil_validate a cerr i s = Inr s1" by simp
    then obtain w where
      "s1 = s\<lparr>ve := Some w, d_trace := d_trace s @ [Monitor_add ''Test error'' i (Some w)]\<rparr>"
      by (rule distil_validate_cases)
    then show ?thesis by simp
  next
    case False
    with c show ?thesis by simp
  qed
  with v s' c that show ?thesis by blast
qed

lemma distil_step_best:
  assumes "distil_step a cerr i s = Inr s'"
  shows "\<exists>v. ve s' = Some v \<and> best_ve s' \<le> v
           \<and> best_ve s' = (if v < best_ve s then v else best_ve s)"
proof -
  from assms obtain v s1 where "ve s1 = Some v" "best_ve s1 = best_ve s"
    "s' = distil_update i (save_best a i v s1)"
    by (rule distil_step_result)
  then show ?thesis by (simp add: distil_update_fields save_best_fields)
qed

lemma distil_step_saved:
  assumes "distil_step a cerr i s = Inr s'"
  shows "\<exists>v. ve s' = Some v
           \<and> saved_files (drop (length (d_trace s)) (d_trace s')) =
               (if v < best_ve s then [params_file (d_model_save_path a) (int i)] else [])"
proof -
  from assms obtain v s1 where v: "ve s1 = Some v" and b: "best_ve s1 = best_ve s"
    and s': "s' = distil_update i (save_best a i v s1)"
    and tr: "\<exists>new. d_trace s1 = d_trace s @ new \<and> saved_files new = []"
    by (rule distil_step_result)
  from tr obtain new where new: "d_trace s1 = d_trace s @ new" "saved_files new = []" by blast
  have "ve s' = Some v" using s' v by (simp add: distil_update_fields save_best_fields)
  moreover have "saved_files (drop (length (d_trace s)) (d_trace s')) =
               (if v < best_ve s then [params_file (d_model_save_path a) (int i)] else [])"
    using s' new b by (simp add: distil_update_fields save_best_fields saved_files_append)
  ultimately show ?thesis by blast
qed

lemma distil_steps_agree:
  assumes "int i mod d_val_interval a = 0 \<or> (\<exists>v. ve s = Some v \<and> best_ve s \<le> v)"
  shows "distil_step a cerr i s = distil_step_after_validation a cerr i s"
proof (cases "d_val_interval a = 0 \<or> int i mod d_val_interval a = 0")
  case True
  then show ?thesis by (auto simp: distil_step_def distil_step_after_validation_def)
next
  case False
  with assms have "\<exists>v. ve s = Some v \<and> best_ve s \<le> v" by simp
  then obtain v where v: "ve s = Some v" "best_ve s \<le> v" by auto
  then have "save_best a i v s = s" by (simp add: save_best_def)
  with False v show ?thesis
    by (simp add: distil_step_def distil_step_after_validation_def)
qed

lemma distil_loops_agree:
  "for_loop (distil_step a cerr) [0..<n] distil_init =
     for_loop (distil_step_after_validation a cerr) [0..<n] distil_init
   \<and> (\<forall>s. 0 < n \<longrightarrow> for_loop (distil_step a cerr) [0..<n] distil_init = Inr s \<longrightarrow>
          (\<exists>v. ve s = Some v \<and> best_ve s \<le> v))"
proof (induction n)
  case 0
  then show ?case by simp
next
  case (Suc n)
  have split: "[0..<Suc n] = [0..<n] @ [n]" by simp
  show ?case
  proof (cases "for_loop (distil_step a cerr) [0..<n] distil_init")
    case (Inl err)
    with Suc.IH have alt: "for_loop (distil_step_after_validation a cerr) [0..<n] distil_init = Inl err"
      by simp
    show ?thesis unfolding split for_loop_snoc Inl alt by simp
  next
    case (Inr t)
    with Suc.IH have alt: "for_loop (distil_step_after_validation a cerr) [0..<n] distil_init = Inr t"
      by simp
    have "int n mod d_val_interval a = 0 \<or> (\<exists>v. ve t = Some v \<and> best_ve t \<le> v)"
    proof (cases "n = 0")
      case True
      then show ?thesis by simp
    next
      case False
      with Suc.IH Inr show ?thesis by simp
    qed
    from distil_steps_agree[OF this]
    have same: "distil_step a cerr n t = distil_step_after_validation a cerr n t" .
    have inv: "\<exists>v. ve s = Some v \<and> best_ve s \<le> v" if "distil_step a cerr n t = Inr s" for s
      using distil_step_best[OF that] by blast
    show ?thesis unfolding split for_loop_snoc Inr alt using same inv by simp
  qed
qed

lemma distil_step_unbound:
  assumes "distil_step a cerr i s = Inl (UnboundLocalError ''ve'')"
  shows "ve s = None \<and> int i mod d_val_interval a \<noteq> 0"
proof -
  from assms have nz: "d_val_interval a \<noteq> 0"
    by (cases "d_val_interval a = 0") (simp_all add: distil_step_def)
  show ?thesis
  proof (cases "int i mod d_val_interval a = 0")
    case True
    show ?thesis
    proof (cases "distil_validation (d_batch_size a) (cerr i)")
      case (Inl err)
      then have "err = ZeroDivisionError"
        by (simp add: distil_validation_def Let_def split: if_splits)
      with Inl assms nz True show ?thesis by (simp add: distil_step_def distil_validate_def)
    next
      case (Inr v)
      with assms nz True show ?thesis by (simp add: distil_step_def distil_validate_def)
    qed
  next
    case False
    with assms nz show ?thesis by (cases "ve s") (simp_all add: distil_step_def)
  qed
qed

lemma distil_loop_no_unbound_ve:
  "for_loop (distil_step a cerr) [0..<n] distil_init \<noteq> Inl (UnboundLocalError ''ve'')"
proof (induction n)
  case 0
  then show ?case by simp
next
  case (Suc n)
  have split: "[0..<Suc n] = [0..<n] @ [n]" by simp
  show ?case
  proof (cases "for_loop (distil_step a cerr) [0..<n] distil_init")
    case (Inl err)
    with Suc.IH show ?thesis unfolding split for_loop_snoc by simp
  next
    case (Inr t)
    have "distil_step a cerr n t \<noteq> Inl (UnboundLocalError ''ve'')"
    proof
      assume "distil_step a cerr n t = Inl (UnboundLocalError ''ve'')"
      from distil_step_unbound[OF this] have u: "ve t = None" "int n mod d_val_interval a \<noteq> 0"
        by simp_all
      then have "0 < n" by (cases "n = 0") simp_all
      with distil_loops_agree[of a cerr n] Inr u(1) show False by auto
    qed
    then show ?thesis unfolding split for_loop_snoc Inr by simp
  qed
qed

section \<open>Saving the best model\<close>

lemma scenario_validation:
  "distil_validation 10000 (scenario_errors i) = Inr (scenario_errors i 0)"
  by (simp add: distil_validation_def n_valid_def py_int_def scenario_errors_def)

lemma scenario_files:
  "params_file ''out'' 0 = ''out/params_000000.h5''"
  "params_file ''out'' 1 = ''out/params_000001.h5''"
  "params_file ''out'' 2 = ''out/params_000002.h5''"
  "params_file ''out'' 3 = ''out/params_000003.h5''"
  by code_simp+

lemma scenario_run:
  "map_sum id (\<lambda>s. (saved_files (d_trace s), best_ve s, ve s)) (distil_loop scenario_args scenario_errors) =
     Inr ([''out/params_000000.h5'', ''out/params_000001.h5'', ''out/params_000003.h5''], 1 / 5, Some (1 / 5))"
  unfolding distil_loop_def scenario_args_def
  by (simp add: upt_conv_Cons distil_step_def distil_validate_def scenario_validation
      distil_init_def save_best_def distil_update_def scenario_files saved_files_append)
     (simp add: scenario_errors_def)

lemma sparse_run:
  "map_sum id (\<lambda>s. (saved_files (d_trace s), best_ve s, ve s)) (distil_loop sparse_args scenario_errors) =
     Inr ([''out/params_000000.h5'', ''out/params_000002.h5''], 2 / 5, Some (2 / 5))"
  unfolding distil_loop_def scenario_args_def sparse_args_def
  by (simp add: upt_conv_Cons distil_step_def distil_validate_def scenario_validation
      distil_init_def save_best_def distil_update_def scenario_files saved_files_append)
     (simp add: scenario_errors_def)


text \<open>
  Claim C2. \<open>best_ve\<close> starts at 1.0, and an iteration of the loop saves the
  parameters exactly when the current validation error is strictly less than the best error
  so far, which it then replaces. With the validation errors 0.5, 0.3, 0.4 and 0.2 the loop
  saves at 0.5, 0.3 and 0.2 (iterations 0, 1 and 3) and not at 0.4.
\<close>

theorem saved_exactly_on_improvement:
  "best_ve distil_init = 1
   \<and> (distil_step a cerr i s = Inr s' \<longrightarrow>
        (\<exists>v. ve s' = Some v
           \<and> saved_files (drop (length (d_trace s)) (d_trace s')) =
               (if v < best_ve s then [params_file (d_model_save_path a) (int i)] else [])
           \<and> best_ve s' = (if v < best_ve s then v else best_ve s)))
   \<and> map (\<lambda>i. scenario_errors i 0) [0, 1, 2, 3] = [1 / 2, 3 / 10, 2 / 5, 1 / 5]
   \<and> map_sum id (\<lambda>s. (saved_files (d_trace s), best_ve s))
         (distil_loop scenario_args scenario_errors) =
       Inr ([''out/params_000000.h5'', ''out/params_000001.h5'', ''out/params_000003.h5''], 1 / 5)"
proof (intro conjI impI)
  show "best_ve distil_init = 1" by (simp add: distil_init_def)
next
  assume step: "distil_step a cerr i s = Inr s'"
  from distil_step_saved[OF step] obtain v where v: "ve s' = Some v"
    and sv: "saved_files (drop (length (d_trace s)) (d_trace s')) =
               (if v < best_ve s then [params_file (d_model_save_path a) (int i)] else [])"
    by blast
  from distil_step_best[OF step] v
  have "best_ve s' = (if v < best_ve s then v else best_ve s)" by auto
  with v sv show "\<exists>v. ve s' = Some v
           \<and> saved_files (drop (length (d_trace s)) (d_trace s')) =
               (if v < best_ve s then [params_file (d_model_save_path a) (int i)] else [])
           \<and> best_ve s' = (if v < best_ve s then v else best_ve s)" by blast
next
  show "map (\<lambda>i. scenario_errors i 0) [0, 1, 2, 3] = [1 / 2, 3 / 10, 2 / 5, 1 / 5]"
    by (simp add: scenario_errors_def)
next
  have "map_sum id (\<lambda>s. (saved_files (d_trace s), best_ve s, ve s))
         (distil_loop scenario_args scenario_errors) =
     Inr ([''out/params_000000.h5'', ''out/params_000001.h5'', ''out/params_000003.h5''],
          1 / 5, Some (1 / 5))"
    by (rule scenario_run)
  then show "map_sum id (\<lambda>s. (saved_files (d_trace s), best_ve s))
         (distil_loop scenario_args scenario_errors) =
       Inr ([''out/params_000000.h5'', ''out/params_000001.h5'', ''out/params_000003.h5''], 1 / 5)"
    by (cases "distil_loop scenario_args scenario_errors") auto
qed

lemma scenario_step_2:
  "distil_step scenario_args scenario_errors 2 \<lparr>ve = Some (3 / 10), best_ve = 3 / 10, d_trace = []\<rparr> =
     Inr \<lparr>ve = Some (2 / 5), best_ve = 3 / 10,
          d_trace = [Monitor_add ''Test error'' 2 (Some (2 / 5)), Train_step 2,
                     Monitor_add ''Training loss'' 2 None, Monitor_add ''Training error'' 2 None,
                     Monitor_add ''Training time'' 2 None]\<rparr>"
  unfolding scenario_args_def
  by (simp add: distil_step_def distil_validate_def scenario_validation save_best_def
      distil_update_def)
     (simp add: scenario_errors_def)

lemma scenario_step_3:
  "\<exists>tr. distil_step scenario_args scenario_errors 3 \<lparr>ve = Some (2 / 5), best_ve = 3 / 10, d_trace = []\<rparr> =
     Inr \<lparr>ve = Some (1 / 5), best_ve = 1 / 5, d_trace = tr\<rparr>"
  unfolding scenario_args_def
  by (simp add: distil_step_def distil_validate_def scenario_validation save_best_def
      distil_update_def)
     (simp add: scenario_errors_def)

theorem saved_exactly_on_improvement_witness:
  "(\<exists>s'. distil_step scenario_args scenario_errors 2
            \<lparr>ve = Some (3 / 10), best_ve = 3 / 10, d_trace = []\<rparr> = Inr s'
         \<and> ve s' = Some (2 / 5) \<and> saved_files (d_trace s') = [] \<and> best_ve s' = 3 / 10)
   \<and> (\<exists>s'. distil_step scenario_args scenario_errors 3
            \<lparr>ve = Some (2 / 5), best_ve = 3 / 10, d_trace = []\<rparr> = Inr s'
         \<and> ve s' = Some (1 / 5) \<and> saved_files (d_trace s') = [''out/params_000003.h5'']
         \<and> best_ve s' = 1 / 5)"
proof (intro conjI)
  let ?s2 = "\<lparr>ve = Some (3 / 10), best_ve = 3 / 10, d_trace = []\<rparr>"
  obtain s' where s': "distil_step scenario_args scenario_errors 2 ?s2 = Inr s'"
    and v: "ve s' = Some (2 / 5)"
    using scenario_step_2 by simp
  from saved_exactly_on_improvement[of scenario_args scenario_errors 2 ?s2 s'] s'
  obtain w where w: "ve s' = Some w"
    "saved_files (drop (length (d_trace ?s2)) (d_trace s')) =
       (if w < best_ve ?s2 then [params_file (d_model_save_path scenario_args) (int 2)] else [])"
    "best_ve s' = (if w < best_ve ?s2 then w else best_ve ?s2)"
    by blast
  from w(1) v have "w = 2 / 5" by simp
  with w(2,3) have "saved_files (d_trace s') = [] \<and> best_ve s' = 3 / 10" by simp
  with s' v show "\<exists>s'. distil_step scenario_args scenario_errors 2 ?s2 = Inr s'
         \<and> ve s' = Some (2 / 5) \<and> saved_files (d_trace s') = [] \<and> best_ve s' = 3 / 10"
    by blast
next
  let ?s3 = "\<lparr>ve = Some (2 / 5), best_ve = 3 / 10, d_trace = []\<rparr>"
  obtain s' where s': "distil_step scenario_args scenario_errors 3 ?s3 = Inr s'"
    and v: "ve s' = Some (1 / 5)"
    using scenario_step_3 by auto
  have p: "d_model_save_path scenario_args = ''out''" by (simp add: scenario_args_def)
  from saved_exactly_on_improvement[of scenario_args scenario_errors 3 ?s3 s'] s'
  obtain w where w: "ve s' = Some w"
    "saved_files (drop (length (d_trace ?s3)) (d_trace s')) =
       (if w < best_ve ?s3 then [params_file (d_model_save_path scenario_args) (int 3)] else [])"
    "best_ve s' = (if w < best_ve ?s3 then w else best_ve ?s3)"
    by blast
  from w(1) v have "w = 1 / 5" by simp
  with w(2,3) have "saved_files (d_trace s') = [''out/params_000003.h5''] \<and> best_ve s' = 1 / 5"
    by (simp add: p scenario_files)
  with s' v show "\<exists>s'. distil_step scenario_args scenario_errors 3 ?s3 = Inr s'
         \<and> ve s' = Some (1 / 5) \<and> saved_files (d_trace s') = [''out/params_000003.h5'']
         \<and> best_ve s' = 1 / 5"
    by blast
qed

section \<open>The timing of the best-model check\<close>

lemma distil_first_step:
  assumes "d_val_interval a \<noteq> 0" and "distil_step a cerr 0 distil_init = Inr s1"
  shows "\<exists>v. distil_validation (d_batch_size a) (cerr 0) = Inr v \<and> ve s1 = Some v
            \<and> hd (d_trace s1) = Monitor_add ''Test error'' 0 (Some v)"
proof -
  from assms(2) obtain v t where t: "ve t = Some v"
    and s1: "s1 = distil_update 0 (save_best a 0 v t)"
    and c: "if int 0 mod d_val_interval a = 0
         then distil_validate a cerr 0 distil_init = Inr t else t = distil_init"
    by (rule distil_step_result)
  from c have "distil_validate a cerr 0 distil_init = Inr t" by simp
  then obtain w where w: "distil_validation (d_batch_size a) (cerr 0) = Inr w"
    and t': "t = distil_init\<lparr>ve := Some w,
               d_trace := d_trace distil_init @ [Monitor_add ''Test error'' 0 (Some w)]\<rparr>"
    by (rule distil_validate_cases)
  from t t' have "w = v" by simp
  with w s1 t' show ?thesis
    by (simp add: distil_update_fields save_best_fields distil_init_def)
qed

lemma distil_step_between_validations:
  assumes "for_loop (distil_step a cerr) [0..<i] distil_init = Inr s"
    and "int i mod d_val_interval a \<noteq> 0" and "distil_step a cerr i s = Inr s'"
  shows "s' = distil_update i s"
proof -
  from assms(2) have "0 < i" by (cases "i = 0") simp_all
  with distil_loops_agree[of a cerr i] assms(1)
  have inv: "\<exists>v. ve s = Some v \<and> best_ve s \<le> v" by simp
  then have "distil_step a cerr i s = distil_step_after_validation a cerr i s"
    using distil_steps_agree by blast
  moreover from assms(3) have "d_val_interval a \<noteq> 0"
    by (cases "d_val_interval a = 0") (simp_all add: distil_step_def)
  ultimately show ?thesis using assms(2,3) by (simp add: distil_step_after_validation_def)
qed

text \<open>
  Claim C10. For every \<open>val_interval >= 1\<close> iteration 0 validates, so \<open>ve\<close> is
  assigned before the first comparison, and the loop never raises for an unbound
  \<open>ve\<close>. An iteration that does not validate never saves and leaves \<open>best_ve\<close>
  as it is, so the comparison succeeds at most once from one validation pass to the next.
  Hence the loop that checks on every iteration and the loop that checks only right after a
  validation pass return the same result after any number of iterations: the same trace
  (saves, file names, monitor entries) and the same \<open>best_ve\<close>, or the same exception.
\<close>

theorem check_on_every_iteration_equivalent:
  "for_loop (distil_step a cerr) [0..<n] distil_init =
     for_loop (distil_step_after_validation a cerr) [0..<n] distil_init
   \<and> distil_loop a cerr = distil_loop_after_validation a cerr
   \<and> for_loop (distil_step a cerr) [0..<n] distil_init \<noteq> Inl (UnboundLocalError ''ve'')
   \<and> (1 \<le> d_val_interval a \<and> distil_step a cerr 0 distil_init = Inr s1 \<longrightarrow>
        (\<exists>v. distil_validation (d_batch_size a) (cerr 0) = Inr v \<and> ve s1 = Some v
            \<and> hd (d_trace s1) = Monitor_add ''Test error'' 0 (Some v)))
   \<and> (for_loop (distil_step a cerr) [0..<i] distil_init = Inr s
        \<and> int i mod d_val_interval a \<noteq> 0 \<and> distil_step a cerr i s = Inr s' \<longrightarrow>
        s' = distil_update i s \<and> saved_files (d_trace s') = saved_files (d_trace s)
        \<and> best_ve s' = best_ve s)"
proof (intro conjI impI)
  show "for_loop (distil_step a cerr) [0..<n] distil_init =
     for_loop (distil_step_after_validation a cerr) [0..<n] distil_init"
    using distil_loops_agree[of a cerr n] by blast
  show "distil_loop a cerr = distil_loop_after_validation a cerr"
    unfolding distil_loop_def distil_loop_after_validation_def
    using distil_loops_agree[of a cerr "nat (d_max_iter a)"] by blast
  show "for_loop (distil_step a cerr) [0..<n] distil_init \<noteq> Inl (UnboundLocalError ''ve'')"
    by (rule distil_loop_no_unbound_ve)
next
  assume h: "1 \<le> d_val_interval a \<and> distil_step a cerr 0 distil_init = Inr s1"
  then have "d_val_interval a \<noteq> 0" by auto
  from distil_first_step[OF this] h
  show "\<exists>v. distil_validation (d_batch_size a) (cerr 0) = Inr v \<and> ve s1 = Some v
            \<and> hd (d_trace s1) = Monitor_add ''Test error'' 0 (Some v)" by blast
next
  assume h: "for_loop (distil_step a cerr) [0..<i] distil_init = Inr s
        \<and> int i mod d_val_interval a \<noteq> 0 \<and> distil_step a cerr i s = Inr s'"
  then show u: "s' = distil_update i s"
    using distil_step_between_validations[of a cerr i s s'] by blast
  show "saved_files (d_trace s') = saved_files (d_trace s)"
    unfolding u by (simp add: distil_update_fields saved_files_append)
  show "best_ve s' = best_ve s" unfolding u by (simp add: distil_update_fields)
qed

lemma sparse_step_0:
  "\<exists>tr. distil_step sparse_args scenario_errors 0 distil_init =
     Inr \<lparr>ve = Some (1 / 2), best_ve = 1 / 2, d_trace = tr\<rparr>"
  unfolding sparse_args_def scenario_args_def
  by (simp add: distil_step_def distil_validate_def scenario_validation save_best_def
      distil_update_def distil_init_def)
     (simp add: scenario_errors_def)

lemma sparse_step_1:
  "\<exists>tr. distil_step sparse_args scenario_errors 1 \<lparr>ve = Some (1 / 2), best_ve = 1 / 2, d_trace = tr0\<rparr> =
     Inr \<lparr>ve = Some (1 / 2), best_ve = 1 / 2, d_trace = tr\<rparr>"
  unfolding sparse_args_def scenario_args_def
  by (simp add: distil_step_def save_best_def distil_update_def)

theorem check_on_every_iteration_equivalent_witness:
  "map_sum id (\<lambda>s. (saved_files (d_trace s), best_ve s, ve s))
       (distil_loop_after_validation sparse_args scenario_errors) =
     Inr ([''out/params_000000.h5'', ''out/params_000002.h5''], 2 / 5, Some (2 / 5))
   \<and> (\<exists>s1. distil_step sparse_args scenario_errors 0 distil_init = Inr s1
          \<and> ve s1 = Some (1 / 2)
          \<and> hd (d_trace s1) = Monitor_add ''Test error'' 0 (Some (1 / 2)))
   \<and> (\<exists>s s'. for_loop (distil_step sparse_args scenario_errors) [0..<1] distil_init = Inr s
          \<and> distil_step sparse_args scenario_errors 1 s = Inr s'
          \<and> s' = distil_update 1 s \<and> best_ve s' = best_ve s)"
proof (intro conjI)
  note eqv = check_on_every_iteration_equivalent[of sparse_args scenario_errors]
  have "distil_loop sparse_args scenario_errors =
          distil_loop_after_validation sparse_args scenario_errors"
    using eqv by blast
  with sparse_run
  show "map_sum id (\<lambda>s. (saved_files (d_trace s), best_ve s, ve s))
       (distil_loop_after_validation sparse_args scenario_errors) =
     Inr ([''out/params_000000.h5'', ''out/params_000002.h5''], 2 / 5, Some (2 / 5))"
    by simp
  have vi: "1 \<le> d_val_interval sparse_args" "int 1 mod d_val_interval sparse_args \<noteq> 0"
    by (simp_all add: sparse_args_def scenario_args_def)
  obtain s1 where s1: "distil_step sparse_args scenario_errors 0 distil_init = Inr s1"
    and b1: "ve s1 = Some (1 / 2)" "best_ve s1 = 1 / 2"
    using sparse_step_0 by auto
  from eqv[of _ s1] vi(1) s1 obtain v where
    "ve s1 = Some v" "hd (d_trace s1) = Monitor_add ''Test error'' 0 (Some v)"
    by blast
  with b1 have "hd (d_trace s1) = Monitor_add ''Test error'' 0 (Some (1 / 2))" by simp
  with s1 b1 show "\<exists>s1. distil_step sparse_args scenario_errors 0 distil_init = Inr s1
          \<and> ve s1 = Some (1 / 2)
          \<and> hd (d_trace s1) = Monitor_add ''Test error'' 0 (Some (1 / 2))"
    by blast
  have loop1: "for_loop (distil_step sparse_args scenario_errors) [0..<1] distil_init = Inr s1"
    using s1 by (simp add: upt_conv_Cons)
  have "s1 = \<lparr>ve = Some (1 / 2), best_ve = 1 / 2, d_trace = d_trace s1\<rparr>"
    using b1 by (cases s1) simp
  with sparse_step_1[of "d_trace s1"] obtain s' where
    s': "distil_step sparse_args scenario_errors 1 s1 = Inr s'"
    by auto
  from eqv[of _ _ 1 s1 s'] loop1 vi(2) s'
  have "s' = distil_update 1 s1 \<and> best_ve s' = best_ve s1" by blast
  with loop1 s' show "\<exists>s s'. for_loop (distil_step sparse_args scenario_errors) [0..<1] distil_init = Inr s
          \<and> distil_step sparse_args scenario_errors 1 s = Inr s'
          \<and> s' = distil_update 1 s \<and> best_ve s' = best_ve s"
    by blast
qed

section \<open>The teacher is never updated\<close>

lemma create_parameters_appends:
  "\<exists>new. create_parameters scope layers reg = reg @ new \<and> (\<forall>entry \<in> set new. in_scope scope entry)"
proof (induction layers arbitrary: reg)
  case Nil
  then show ?case by (simp add: create_parameters_def)
next
  case (Cons layer layers)
  obtain name init where layer: "layer = (name, init)" by (cases layer)
  define reg1 where
    "reg1 = (if (scope, name) \<in> set (map fst reg) then reg
             else reg @ [((scope, name), \<lparr>p_data = init, p_grad = 0\<rparr>)])"
  have unfold: "create_parameters scope (layer # layers) reg = create_parameters scope layers reg1"
    by (simp add: create_parameters_def layer reg1_def)
  obtain new0 where new0: "reg1 = reg @ new0" "\<forall>entry \<in> set new0. in_scope scope entry"
    by (cases "(scope, name) \<in> set (map fst reg)") (simp_all add: reg1_def in_scope_def)
  from Cons.IH[of reg1] obtain new1 where
    new1: "create_parameters scope layers reg1 = reg1 @ new1" "\<forall>entry \<in> set new1. in_scope scope entry"
    by blast
  have "create_parameters scope (layer # layers) reg = reg @ (new0 @ new1)"
    using unfold new0(1) new1(1) by simp
  moreover have "\<forall>entry \<in> set (new0 @ new1). in_scope scope entry"
    using new0(2) new1(2) by auto
  ultimately show ?case by blast
qed

lemma scopes_differ: "teacher \<noteq> student"
  by (simp add: teacher_def student_def)

lemma solver_parameters_student:
  "\<forall>k \<in> set (solver_parameters (distil_setup loaded t_layers s_layers)). fst k = student"
  by (auto simp: distil_setup_def Let_def get_parameters_def in_scope_def)

lemma guarded_map_keeps:
  assumes "\<And>k. c k \<Longrightarrow> fst k \<noteq> teacher"
  shows "filter (in_scope teacher) (map (\<lambda>(k, p). if c k then (k, h k p) else (k, p)) reg) =
           filter (in_scope teacher) reg"
proof (induction reg)
  case Nil
  then show ?case by simp
next
  case (Cons entry reg)
  obtain k p where entry: "entry = (k, p)" by (cases entry)
  show ?case
  proof (cases "c k")
    case True
    then have "fst k \<noteq> teacher" by (rule assms)
    with True Cons.IH show ?thesis by (simp add: entry in_scope_def)
  next
    case False
    with Cons.IH show ?thesis by (simp add: entry)
  qed
qed

lemma zero_grad_keeps:
  assumes "\<forall>k \<in> set (solver_parameters g). fst k = student"
  shows "keeps_teacher g (zero_grad g)"
proof -
  have "fst k \<noteq> teacher" if "k \<in> set (solver_parameters g)" for k
    using assms that scopes_differ by auto
  then have "filter (in_scope teacher) (registry (zero_grad g)) = filter (in_scope teacher) (registry g)"
    unfolding zero_grad_def by (simp add: guarded_map_keeps)
  then show ?thesis by (simp add: keeps_teacher_def zero_grad_def)
qed

lemma backward_keeps:
  assumes "(teacher, True) \<notin> set (graphs g)"
  shows "keeps_teacher g (backward gradient g)"
proof -
  have "fst k \<noteq> teacher" if "(fst k, True) \<in> set (graphs g)" for k :: pname
    using assms that by auto
  then have "filter (in_scope teacher) (registry (backward gradient g)) = filter (in_scope teacher) (registry g)"
    unfolding backward_def by (simp add: guarded_map_keeps)
  then show ?thesis by (simp add: keeps_teacher_def backward_def)
qed

lemma solver_update_keeps:
  assumes "\<forall>k \<in> set (solver_parameters g). fst k = student"
  shows "keeps_teacher g (solver_update rule g)"
proof -
  have "fst k \<noteq> teacher" if "k \<in> set (solver_parameters g)" for k
    using assms that scopes_differ by auto
  then have "filter (in_scope teacher) (registry (solver_update rule g)) = filter (in_scope teacher) (registry g)"
    unfolding solver_update_def by (simp add: guarded_map_keeps)
  then show ?thesis by (simp add: keeps_teacher_def solver_update_def)
qed

lemma keeps_teacher_trans:
  "keeps_teacher g g' \<Longrightarrow> keeps_teacher g' g'' \<Longrightarrow> keeps_teacher g g''"
  by (simp add: keeps_teacher_def)

lemma distil_train_step_keeps:
  assumes "\<forall>k \<in> set (solver_parameters g). fst k = student" and "(teacher, True) \<notin> set (graphs g)"
  shows "keeps_teacher g (distil_train_step gradient rule i g)"
proof -
  have z: "keeps_teacher g (zero_grad g)" using zero_grad_keeps[OF assms(1)] .
  then have z': "\<forall>k \<in> set (solver_parameters (zero_grad g)). fst k = student"
    "(teacher, True) \<notin> set (graphs (zero_grad g))"
    using assms by (simp_all add: keeps_teacher_def)
  have b: "keeps_teacher (zero_grad g) (backward (gradient i) (zero_grad g))"
    using backward_keeps[OF z'(2)] .
  then have b': "\<forall>k \<in> set (solver_parameters (backward (gradient i) (zero_grad g))). fst k = student"
    using z'(1) by (simp add: keeps_teacher_def)
  have u: "keeps_teacher (backward (gradient i) (zero_grad g))
             (solver_update (rule i) (backward (gradient i) (zero_grad g)))"
    using solver_update_keeps[OF b'] .
  show ?thesis unfolding distil_train_step_def
    using keeps_teacher_trans[OF keeps_teacher_trans[OF z b] u] .
qed

lemma distil_train_keeps:
  assumes "\<forall>k \<in> set (solver_parameters g). fst k = student" and "(teacher, True) \<notin> set (graphs g)"
  shows "keeps_teacher g (distil_train gradient rule n g)"
proof (induction n)
  case 0
  show ?case by (simp add: distil_train_def keeps_teacher_def)
next
  case (Suc n)
  let ?g = "distil_train gradient rule n g"
  have step: "distil_train gradient rule (Suc n) g = distil_train_step gradient rule n ?g"
    by (simp add: distil_train_def)
  from Suc.IH assms have "\<forall>k \<in> set (solver_parameters ?g). fst k = student"
    "(teacher, True) \<notin> set (graphs ?g)"
    by (simp_all add: keeps_teacher_def)
  from distil_train_step_keeps[OF this] have "keeps_teacher ?g (distil_train_step gradient rule n ?g)" .
  with Suc.IH show ?case unfolding step by (rule keeps_teacher_trans)
qed

text \<open>
  Claim C4. The scope names differ, and no parameter is in both scopes. The solver's
  parameters are exactly the parameters registered under the student scope, and the
  teacher graph is among the graphs that need no gradient. After any number of
  iterations the entries of the teacher scope, values and gradients, are those the
  registry held before the first iteration, and the solver still holds the same parameters.
\<close>

theorem teacher_parameters_never_modified:
  "teacher \<noteq> student
   \<and> set (get_parameters teacher reg) \<inter> set (get_parameters student reg) = {}
   \<and> solver_parameters (distil_setup loaded t_layers s_layers) =
        get_parameters student (registry (distil_setup loaded t_layers s_layers))
   \<and> (teacher, False) \<in> set (graphs (distil_setup loaded t_layers s_layers))
   \<and> (teacher, True) \<notin> set (graphs (distil_setup loaded t_layers s_layers))
   \<and> filter (in_scope teacher) (registry (distil_train gradient rule n (distil_setup loaded t_layers s_layers))) =
        filter (in_scope teacher) (registry (distil_setup loaded t_layers s_layers))
   \<and> solver_parameters (distil_train gradient rule n (distil_setup loaded t_layers s_layers)) =
        solver_parameters (distil_setup loaded t_layers s_layers)"
proof -
  let ?g = "distil_setup loaded t_layers s_layers"
  have disj: "set (get_parameters teacher reg) \<inter> set (get_parameters student reg) = {}"
    using scopes_differ by (auto simp: get_parameters_def in_scope_def)
  have sp: "solver_parameters ?g = get_parameters student (registry ?g)"
    by (simp add: distil_setup_def Let_def)
  have gr: "(teacher, False) \<in> set (graphs ?g)" "(teacher, True) \<notin> set (graphs ?g)"
    using scopes_differ by (simp_all add: distil_setup_def Let_def)
  have "keeps_teacher ?g (distil_train gradient rule n ?g)"
    using distil_train_keeps[OF solver_parameters_student gr(2)] .
  then have "filter (in_scope teacher) (registry (distil_train gradient rule n ?g)) =
        filter (in_scope teacher) (registry ?g)"
    and "solver_parameters (distil_train gradient rule n ?g) = solver_parameters ?g"
    by (simp_all add: keeps_teacher_def)
  with scopes_differ disj sp gr show ?thesis by blast
qed

lemma example_graph_value:
  "example_graph =
     \<lparr>registry =
        [((''teacher'', ''conv1/W''), \<lparr>p_data = 3, p_grad = 0\<rparr>),
         ((''teacher'', ''fc/W''), \<lparr>p_data = 7, p_grad = 0\<rparr>),
         ((''student'', ''conv1/W''), \<lparr>p_data = 1, p_grad = 0\<rparr>)],
      solver_parameters = [(''student'', ''conv1/W'')],
      graphs = [(''teacher'', False), (''student'', True)]\<rparr>"
  by (simp add: example_graph_def distil_setup_def create_parameters_def get_parameters_def
      in_scope_def teacher_def student_def)

lemma example_graph_trained:
  "registry (distil_train (\<lambda>i k. 5) (\<lambda>i k p. p_data p - p_grad p) 2 example_graph) =
     [((''teacher'', ''conv1/W''), \<lparr>p_data = 3, p_grad = 0\<rparr>),
      ((''teacher'', ''fc/W''), \<lparr>p_data = 7, p_grad = 0\<rparr>),
      ((''student'', ''conv1/W''), \<lparr>p_data = - 9, p_grad = 5\<rparr>)]"
  unfolding example_graph_value
  by (simp add: distil_train_def distil_train_step_def zero_grad_def backward_def
      solver_update_def upt_conv_Cons)

theorem teacher_parameters_never_modified_witness:
  "registry (distil_train (\<lambda>i k. 5) (\<lambda>i k p. p_data p - p_grad p) 2 example_graph) =
     [((''teacher'', ''conv1/W''), \<lparr>p_data = 3, p_grad = 0\<rparr>),
      ((''teacher'', ''fc/W''), \<lparr>p_data = 7, p_grad = 0\<rparr>),
      ((''student'', ''conv1/W''), \<lparr>p_data = - 9, p_grad = 5\<rparr>)]
   \<and> filter (in_scope teacher) (registry (distil_train (\<lambda>i k. 5) (\<lambda>i k p. p_data p - p_grad p) 2 example_graph)) =
       [((''teacher'', ''conv1/W''), \<lparr>p_data = 3, p_grad = 0\<rparr>),
        ((''teacher'', ''fc/W''), \<lparr>p_data = 7, p_grad = 0\<rparr>)]
   \<and> solver_parameters example_graph = [(''student'', ''conv1/W'')]"
proof -
  have "filter (in_scope teacher) (registry (distil_train (\<lambda>i k. 5) (\<lambda>i k p. p_data p - p_grad p) 2 example_graph)) =
        filter (in_scope teacher) (registry example_graph)"
    unfolding example_graph_def
    using teacher_parameters_never_modified[of "[]"
        "[((''teacher'', ''conv1/W''), \<lparr>p_data = 3, p_grad = 0\<rparr>)]"
        "[(''conv1/W'', 0), (''fc/W'', 7)]" "[(''conv1/W'', 1)]"
        "\<lambda>i k. 5" "\<lambda>i k p. p_data p - p_grad p" 2]
    by blast
  also have "\<dots> = [((''teacher'', ''conv1/W''), \<lparr>p_data = 3, p_grad = 0\<rparr>),
        ((''teacher'', ''fc/W''), \<lparr>p_data = 7, p_grad = 0\<rparr>)]"
    unfolding example_graph_value by (simp add: in_scope_def teacher_def)
  finally show ?thesis using example_graph_trained by (simp add: example_graph_value)
qed

end
